theory Spec2Isabelle
  imports Main "HOL-Library.Word"
begin

section \<open>CO2 alarm device: data model\<close>

text \<open>
  The sketch \<^verbatim>\<open>CO2AlarmSystem.ino\<close> keeps its state in globals and in function-level
  statics. They are gathered in one record that every function takes and returns.
  Hardware calls (LED channels, buzzer, timer library, serial link, console) are appended
  to a trace in program order. The text display is a pure sink and is left out, and so are
  the one-time initialisations of pins, ports and sensor in \<^verbatim>\<open>setup\<close>. The static
  \<^verbatim>\<open>buzzerDuration\<close> that \<^verbatim>\<open>loop\<close> declares is never used there; the field of
  that name is the static of \<^verbatim>\<open>buzzerManager\<close>.

  The sensor's ppm field is declared by the sensor library, which is not among the
  sources; its value is an integer. The sketch's \<^verbatim>\<open>int\<close> is the 16-bit
  \<^verbatim>\<open>int\<close> of the target board: wherever the sketch stores the field in an
  \<^verbatim>\<open>int\<close> or passes it to an \<^verbatim>\<open>int\<close> parameter, the value is converted
  (\<open>toInt\<close> below), so a field value above 32767 arrives there as a negative
  number. Thresholds, timer handles and the command counter stay small and are plain
  integers. The millisecond clock and every variable that stores it (\<^verbatim>\<open>long\<close> and
  \<^verbatim>\<open>unsigned long\<close>, compared after conversion to \<^verbatim>\<open>unsigned long\<close>) are 32-bit
  words, so clock differences wrap as they do on the device. The clock is simulated: it
  advances while the program blocks (in a search of the link, in \<^verbatim>\<open>delay\<close>) and
  between two passes of the loop, and stands still otherwise.
\<close>

type_synonym ms = "32 word"

definition toInt :: "int \<Rightarrow> int" where
  "toInt v = sint (word_of_int v :: 16 word)"

datatype pitch = NOTE_C5

datatype console =
    PrintInt int
  | PrintStr string
  | PrintLine string

datatype action =
    NoTone int
  | AnalogWrite int int
  | Tone int pitch int
  | DeleteTimer int
  | SetInterval int int
  | EspPrintln string
  | EspPrint string
  | Delay ms
  | Serial console
  | DhtMeasure bool

text \<open>
  The SoftwareSerial library is not among the sources, so the behaviour of the link is a
  parameter of the model. One call of \<^verbatim>\<open>esp8266.find\<close> blocks for some milliseconds
  and then reports whether the expected text was read; the link is given as the list of
  the outcomes of the coming calls.
\<close>

datatype find_outcome = Matched ms | GaveUp ms

text \<open>
  Modelled from the spec: the SimpleTimer library is not among the sources. The pool holds
  the live periodic timers as (handle, period) pairs; arming inserts an entry under the
  first free handle (or yields -1 when all slots are taken), cancelling removes the entry.
\<close>

type_synonym SimpleTimer = "(int \<times> int) list"

definition MAX_TIMERS :: nat where
  "MAX_TIMERS = 10"

definition setInterval :: "int \<Rightarrow> SimpleTimer \<Rightarrow> int \<times> SimpleTimer" where
  "setInterval d t =
     (case filter (\<lambda>i. i \<notin> fst ` set t) (map int [0..<MAX_TIMERS]) of
        [] \<Rightarrow> (-1, t)
      | i # _ \<Rightarrow> (i, t @ [(i, d)]))"

definition deleteTimer :: "int \<Rightarrow> SimpleTimer \<Rightarrow> SimpleTimer" where
  "deleteTimer i t = filter (\<lambda>e. fst e \<noteq> i) t"

record sys =
  timerId :: int
  lastCO2Threshold :: int
  countTrueCommand :: int
  found :: bool
  co2Level :: int
  buzzerDuration :: int
  lastSendTime :: ms
  ledStartTime :: ms
  ledOn :: bool
  measurementTimestamp :: "ms option"
  timer :: SimpleTimer
  clock :: ms
  inbound :: "find_outcome list"
  trace :: "action list"

definition emit :: "action list \<Rightarrow> sys \<Rightarrow> sys" where
  "emit as s = s\<lparr>trace := trace s @ as\<rparr>"

definition millis :: "sys \<Rightarrow> ms" where
  "millis s = clock s"

definition BLUE :: int where "BLUE = 4"
definition GREEN :: int where "GREEN = 5"
definition RED :: int where "RED = 6"
definition BUZZER :: int where "BUZZER = 14"

text \<open>The globals and statics as their initialisers leave them.\<close>

definition powerOn :: "ms \<Rightarrow> find_outcome list \<Rightarrow> sys" where
  "powerOn t link =
     \<lparr> timerId = -1, lastCO2Threshold = -2, countTrueCommand = 0, found = False,
       co2Level = 0, buzzerDuration = 0, lastSendTime = 0, ledStartTime = 0,
       ledOn = False, measurementTimestamp = None, timer = [], clock = t,
       inbound = link, trace = [] \<rparr>"

section \<open>Buzzer and indicator\<close>

text \<open>\<^verbatim>\<open>buzzerManager\<close>: three independent tests on the global level, then one tone request.\<close>

definition buzzerManager :: "sys \<Rightarrow> sys" where
  "buzzerManager s =
     (let s1 = (if co2Level s \<ge> 1000 \<and> co2Level s < 5000
                then s\<lparr>buzzerDuration := 2000\<rparr> else s);
          s2 = (if co2Level s1 \<ge> 5000 \<and> co2Level s1 < 10000
                then s1\<lparr>buzzerDuration := 1000\<rparr> else s1);
          s3 = (if co2Level s2 \<ge> 10000
                then s2\<lparr>buzzerDuration := 500\<rparr> else s2)
      in emit [Tone 14 NOTE_C5 (buzzerDuration s3)] s3)"

text \<open>\<^verbatim>\<open>ledBlink\<close>: the argument is the routine's own \<^verbatim>\<open>co2Level\<close> parameter.\<close>

definition ledBlink :: "int \<Rightarrow> sys \<Rightarrow> sys" where
  "ledBlink level s =
     (if millis s - ledStartTime s \<ge> 500 then
        (let s1 = s\<lparr>ledOn := \<not> ledOn s\<rparr>;
             s2 = s1\<lparr>ledStartTime := millis s1\<rparr>
         in if ledOn s2 then
              (if level \<ge> 30000 \<or> level \<le> 0
               then emit [AnalogWrite RED 255, AnalogWrite GREEN 0, AnalogWrite BLUE 0] s2
               else emit [AnalogWrite RED 255, AnalogWrite GREEN 100, AnalogWrite BLUE 0] s2)
            else emit [AnalogWrite RED 0, AnalogWrite GREEN 0, AnalogWrite BLUE 0] s2)
      else s)"

section \<open>Threshold classification\<close>

text \<open>
  The value that the chain of range tests in \<^verbatim>\<open>loop\<close> leaves in
  \<^verbatim>\<open>currentCO2Threshold\<close>, which starts at -1.
\<close>

definition currentCO2Threshold :: "int \<Rightarrow> int" where
  "currentCO2Threshold ppm =
     (if ppm < 1000 then 0
      else if ppm \<ge> 1000 \<and> ppm < 2500 then 1
      else if ppm \<ge> 2500 \<and> ppm < 5000 then 2
      else if ppm \<ge> 5000 \<and> ppm < 10000 then 3
      else if ppm \<ge> 10000 \<and> ppm < 30000 then 4
      else if ppm \<ge> 30000 then 5
      else -1)"

text \<open>The names the specification gives to the six threshold numbers.\<close>

datatype SeverityLevel = Normal | Elevated | High | Severe | Critical | Extreme

definition severity :: "int \<Rightarrow> SeverityLevel option" where
  "severity n =
     (if n = 0 then Some Normal else if n = 1 then Some Elevated
      else if n = 2 then Some High else if n = 3 then Some Severe
      else if n = 4 then Some Critical else if n = 5 then Some Extreme
      else None)"

section \<open>Alarm state machine\<close>

text \<open>The period chosen by the \<^verbatim>\<open>switch\<close> on the new threshold, if any.\<close>

definition alarmPeriod :: "int \<Rightarrow> int option" where
  "alarmPeriod threshold =
     (if threshold = 2 then Some 10000
      else if threshold = 3 then Some 5000
      else if threshold = 4 then Some 1000
      else if threshold = 5 then Some 1000
      else None)"

definition armTimer :: "int \<Rightarrow> sys \<Rightarrow> sys" where
  "armTimer d s =
     (case setInterval d (timer s) of
        (i, t) \<Rightarrow> emit [SetInterval d i] (s\<lparr>timer := t, timerId := i\<rparr>))"

text \<open>The "buzzer system logic" block of \<^verbatim>\<open>loop\<close>.\<close>

definition buzzerSystem :: "int \<Rightarrow> sys \<Rightarrow> sys" where
  "buzzerSystem threshold s =
     (if threshold \<noteq> lastCO2Threshold s then
        (let s1 = (if timerId s \<noteq> -1
                   then emit [DeleteTimer (timerId s)]
                          (s\<lparr>timer := deleteTimer (timerId s) (timer s)\<rparr>)\<lparr>timerId := -1\<rparr>
                   else s);
             s2 = buzzerManager s1;
             s3 = (case alarmPeriod threshold of
                     Some d \<Rightarrow> armTimer d s2
                   | None \<Rightarrow> s2)
         in s3\<lparr>lastCO2Threshold := threshold\<rparr>)
      else s)"

section \<open>Command engine and telemetry\<close>

text \<open>
  One call of \<^verbatim>\<open>esp8266.find\<close>: the next outcome of the link decides how long the
  call blocks and what it returns. When the list of outcomes is used up nothing is known
  about the call, and the result is \<open>None\<close>.
\<close>

definition esp_find :: "string \<Rightarrow> sys \<Rightarrow> (bool \<times> sys) option" where
  "esp_find target s =
     (case inbound s of
        [] \<Rightarrow> None
      | Matched d # rest \<Rightarrow> Some (True, s\<lparr>clock := clock s + d, inbound := rest\<rparr>)
      | GaveUp d # rest \<Rightarrow> Some (False, s\<lparr>clock := clock s + d, inbound := rest\<rparr>))"

text \<open>
  The polling loop of \<^verbatim>\<open>sendCommand\<close>. The bound \<^verbatim>\<open>maxTime\<close> has been converted to
  \<^verbatim>\<open>unsigned long\<close>, as the comparison does.
\<close>

function whileWaiting :: "ms \<Rightarrow> ms \<Rightarrow> string \<Rightarrow> sys \<Rightarrow> sys option" where
  "whileWaiting startTime maxTime readResponse s =
     (if millis s - startTime < maxTime then
        (case esp_find readResponse s of
           None \<Rightarrow> None
         | Some (True, s1) \<Rightarrow> Some (s1\<lparr>found := True\<rparr>)
         | Some (False, s1) \<Rightarrow> whileWaiting startTime maxTime readResponse s1)
      else Some s)"
  by pat_completeness auto
termination
  by (relation "measure (\<lambda>(startTime, maxTime, readResponse, s). length (inbound s))")
     (auto simp: esp_find_def split: list.splits find_outcome.splits)

declare whileWaiting.simps [simp del]

definition CRLF :: string where
  "CRLF = [CHR 0x0D, CHR 0x0A]"

definition sendCommand :: "string \<Rightarrow> int \<Rightarrow> string \<Rightarrow> sys \<Rightarrow> sys option" where
  "sendCommand command maxTime readResponse s =
     (let s1 = emit [Serial (PrintInt (countTrueCommand s)),
                     Serial (PrintStr ''. at command =>''),
                     Serial (PrintStr []),
                     EspPrintln command] s;
          startTime = millis s1
      in case whileWaiting startTime (word_of_int maxTime) readResponse s1 of
           None \<Rightarrow> None
         | Some s2 \<Rightarrow>
             (let s3 = (if found s2
                        then (emit [Serial (PrintLine (command @ '': OK''))] s2)
                               \<lparr>countTrueCommand := countTrueCommand s2 + 1\<rparr>
                        else s2);
                  s4 = (if \<not> found s3
                        then emit [Serial (PrintStr (command @ '': FAIL''))] s3
                        else s3)
              in Some (s4\<lparr>found := False\<rparr>)))"

definition WIFI_SSID :: string where "WIFI_SSID = ''WIFI_NAME''"
definition WIFI_PASS :: string where "WIFI_PASS = ''WIFI_PASSWORD''"
definition HOST :: string where "HOST = ''api.thingspeak.com''"
definition API :: string where "API = ''API_KEY''"
definition PORT :: string where "PORT = ''80''"

definition dq :: string where
  "dq = [CHR 0x22]"

text \<open>Decimal text of an integer, as \<^verbatim>\<open>String(n)\<close> builds it.\<close>

function decimal :: "int \<Rightarrow> string" where
  "decimal n =
     (if n < 10 then [char_of (48 + n)]
      else decimal (n div 10) @ [char_of (48 + n mod 10)])"
  by pat_completeness auto
termination
  by (relation "measure nat") auto

declare decimal.simps [simp del]

definition String_int :: "int \<Rightarrow> string" where
  "String_int i = (if i < 0 then ''-'' @ decimal (- i) else decimal i)"

definition sequence :: "(sys \<Rightarrow> sys option) \<Rightarrow> (sys \<Rightarrow> sys option) \<Rightarrow> sys \<Rightarrow> sys option" where
  "sequence f g s = (case f s of None \<Rightarrow> None | Some s1 \<Rightarrow> g s1)"

definition connectToWiFi :: "sys \<Rightarrow> sys option" where
  "connectToWiFi =
     sequence (sendCommand ''AT'' 2000 ''OK'')
    (sequence (sendCommand ''AT+CWMODE=1'' 2000 ''OK'')
              (sendCommand (''AT+CWJAP='' @ dq @ WIFI_SSID @ dq @ '','' @ dq @ WIFI_PASS @ dq)
                 10000 ''OK''))"

definition delay :: "ms \<Rightarrow> sys \<Rightarrow> sys" where
  "delay d s = emit [Delay d] (s\<lparr>clock := clock s + d\<rparr>)"

text \<open>
  \<^verbatim>\<open>sendToThingSpeak\<close>. The type \<open>'f\<close> stands for \<^verbatim>\<open>float\<close> and \<open>fstr\<close>
  for the library's \<^verbatim>\<open>String(float)\<close>; the last argument is the \<^verbatim>\<open>int\<close>
  parameter.
\<close>

definition httpRequest :: "('f \<Rightarrow> string) \<Rightarrow> 'f \<Rightarrow> 'f \<Rightarrow> int \<Rightarrow> string" where
  "httpRequest fstr temperature humidity co2 =
     ''GET /update?api_key='' @ API @ ''&field1='' @ fstr temperature @
     ''&field2='' @ fstr humidity @ ''&field3='' @ String_int co2 @ CRLF"

definition sendToThingSpeak ::
  "('f \<Rightarrow> string) \<Rightarrow> 'f \<Rightarrow> 'f \<Rightarrow> int \<Rightarrow> sys \<Rightarrow> sys option" where
  "sendToThingSpeak fstr temperature humidity co2 =
     (let request = httpRequest fstr temperature humidity co2 in
      sequence (sendCommand (''AT+CIPSTART='' @ dq @ ''TCP'' @ dq @ '','' @ dq @ HOST @ dq @ '','' @ PORT)
                  4000 ''OK'')
     (sequence (sendCommand (''AT+CIPSEND='' @ decimal (int (length request) + 2)) 2000 ''>'')
     (sequence (\<lambda>s. Some (delay 1500 (emit [EspPrint request] s)))
               (sendCommand ''AT+CIPCLOSE'' 2000 ''OK''))))"

section \<open>The main loop\<close>

text \<open>
  What the environment supplies to one pass of \<^verbatim>\<open>loop\<close>: which armed timers the timer
  library finds due, the CO2 sensor's answer (\<open>None\<close> when \<^verbatim>\<open>measure()\<close> is false,
  else the value of its ppm field), the answer the temperature probe would give, and what
  the storage of the two locals \<^verbatim>\<open>temperature\<close> and \<^verbatim>\<open>humidity\<close> holds when the
  pass begins. The locals are declared without initialiser, so these two values are
  indeterminate: the model lets them be anything, also what an earlier pass left there.
\<close>

record 'f pass =
  due :: "int \<Rightarrow> bool"
  co2_sensor :: "int option"
  dht_sensor :: "('f \<times> 'f) option"
  temperature_storage :: 'f
  humidity_storage :: 'f

text \<open>
  Modelled from the spec: \<^verbatim>\<open>timer.run()\<close> of the SimpleTimer library, which is not among
  the sources. Each armed timer that is due calls back \<^verbatim>\<open>buzzerManager\<close> and stays armed.
\<close>

definition timer_run :: "(int \<Rightarrow> bool) \<Rightarrow> sys \<Rightarrow> sys" where
  "timer_run isDue s = fold (\<lambda>e acc. if isDue (fst e) then buzzerManager acc else acc) (timer s) s"

text \<open>
  \<^verbatim>\<open>measureEnvironment\<close>. Its static timestamp is initialised with the clock at the first
  call. The probe is read only when more than 3 s have passed since the timestamp.
\<close>

definition measureEnvironment ::
  "('f \<times> 'f) option \<Rightarrow> 'f \<Rightarrow> 'f \<Rightarrow> sys \<Rightarrow> bool \<times> 'f \<times> 'f \<times> sys" where
  "measureEnvironment probe temperature humidity s =
     (let stamp = (case measurementTimestamp s of None \<Rightarrow> millis s | Some t \<Rightarrow> t);
          s1 = s\<lparr>measurementTimestamp := Some stamp\<rparr>
      in if millis s1 - stamp > 3000 then
           (case probe of
              Some (t, h) \<Rightarrow>
                (True, t, h,
                 (emit [DhtMeasure True] s1)\<lparr>measurementTimestamp := Some (millis s1)\<rparr>)
            | None \<Rightarrow> (False, temperature, humidity, emit [DhtMeasure False] s1))
         else (False, temperature, humidity, s1))"

text \<open>
  The inner chain of the \<^verbatim>\<open>else\<close> branch, from 2500 ppm upwards. The range tests
  read the sensor's field; \<^verbatim>\<open>ledBlink\<close> gets it through its \<^verbatim>\<open>int\<close> parameter.
\<close>

definition upperBands :: "int \<Rightarrow> sys \<Rightarrow> int \<times> sys" where
  "upperBands ppm s =
     (if ppm \<ge> 2500 \<and> ppm < 5000 then
        (2, emit [AnalogWrite RED 255, AnalogWrite GREEN 100, AnalogWrite BLUE 0] s)
      else if ppm \<ge> 5000 \<and> ppm < 10000 then (3, ledBlink (toInt ppm) s)
      else if ppm \<ge> 10000 \<and> ppm < 30000 then
        (4, emit [AnalogWrite RED 255, AnalogWrite GREEN 0, AnalogWrite BLUE 0] s)
      else if ppm \<ge> 30000 then (5, ledBlink (toInt ppm) s)
      else (-1, s))"

definition sendInterval :: ms where
  "sendInterval = 15000"

text \<open>
  The rate-limited update that closes the \<^verbatim>\<open>else\<close> branch; its last argument is the
  reading as \<^verbatim>\<open>sendToThingSpeak\<close> receives it.
\<close>

definition thingSpeakUpdate ::
  "('f \<Rightarrow> string) \<Rightarrow> 'f \<Rightarrow> 'f \<Rightarrow> int \<Rightarrow> sys \<Rightarrow> sys option" where
  "thingSpeakUpdate fstr temperature humidity ppm s =
     (if millis s - lastSendTime s \<ge> sendInterval then
        (case sendToThingSpeak fstr temperature humidity ppm s of
           None \<Rightarrow> None
         | Some s1 \<Rightarrow> Some (s1\<lparr>lastSendTime := millis s1\<rparr>))
      else Some s)"

text \<open>The chain of range tests with its indicator writes; the result carries the threshold.\<close>

definition alertLogic ::
  "('f \<Rightarrow> string) \<Rightarrow> 'f \<Rightarrow> 'f \<Rightarrow> int \<Rightarrow> sys \<Rightarrow> (int \<times> sys) option" where
  "alertLogic fstr temperature humidity ppm s =
     (if ppm < 1000 then
        Some (0, emit [NoTone 14, AnalogWrite RED 0, AnalogWrite GREEN 255, AnalogWrite BLUE 0] s)
      else if ppm \<ge> 1000 \<and> ppm < 2500 then Some (1, ledBlink (toInt ppm) s)
      else
        (case upperBands ppm s of
           (threshold, s1) \<Rightarrow>
             (case thingSpeakUpdate fstr temperature humidity (toInt ppm) s1 of
                None \<Rightarrow> None
              | Some s2 \<Rightarrow> Some (threshold, s2))))"

text \<open>
  The block guarded by \<^verbatim>\<open>co2_sensor.measure()\<close>. It first stores the field in the
  \<^verbatim>\<open>int\<close> global \<^verbatim>\<open>co2Level\<close>.
\<close>

definition alertSystem ::
  "('f \<Rightarrow> string) \<Rightarrow> 'f \<Rightarrow> 'f \<Rightarrow> int option \<Rightarrow> sys \<Rightarrow> sys option" where
  "alertSystem fstr temperature humidity measured s =
     (case measured of
        None \<Rightarrow> Some s
      | Some ppm \<Rightarrow>
          (case alertLogic fstr temperature humidity ppm (s\<lparr>co2Level := toInt ppm\<rparr>) of
             None \<Rightarrow> None
           | Some (threshold, s2) \<Rightarrow> Some (buzzerSystem threshold s2)))"

text \<open>
  One pass of \<^verbatim>\<open>loop\<close>. The two locals are declared without a value at the top of
  every pass, so they hold what their storage holds, and are assigned only by
  \<^verbatim>\<open>measureEnvironment\<close>, the last statement.
\<close>

definition loop :: "('f \<Rightarrow> string) \<Rightarrow> 'f pass \<Rightarrow> sys \<Rightarrow> sys option" where
  "loop fstr p s =
     (let temperature = temperature_storage p;
          humidity = humidity_storage p;
          s1 = timer_run (due p) s
      in case alertSystem fstr temperature humidity (co2_sensor p) s1 of
           None \<Rightarrow> None
         | Some s3 \<Rightarrow>
             (case measureEnvironment (dht_sensor p) temperature humidity s3 of
                (ok, t, h, s4) \<Rightarrow> Some s4))"

definition sketch_setup :: "sys \<Rightarrow> sys option" where
  "sketch_setup s =
     connectToWiFi (emit [AnalogWrite RED 0, AnalogWrite GREEN 0, AnalogWrite BLUE 255] s)"

text \<open>Time passing between two passes, and the link behaviour becoming known.\<close>

definition idle :: "ms \<Rightarrow> find_outcome list \<Rightarrow> sys \<Rightarrow> sys" where
  "idle d link s = s\<lparr>clock := clock s + d, inbound := inbound s @ link\<rparr>"

section \<open>Notions used to state the properties\<close>

text \<open>The actions appended to the trace between two states of one run.\<close>

definition since :: "sys \<Rightarrow> sys \<Rightarrow> action list" where
  "since s s' = drop (length (trace s)) (trace s')"

fun isTimerOp :: "action \<Rightarrow> bool" where
  "isTimerOp (DeleteTimer i) = True"
| "isTimerOp (SetInterval d i) = True"
| "isTimerOp a = False"


fun isUpload :: "action \<Rightarrow> bool" where
  "isUpload (EspPrint r) = True"
| "isUpload a = False"

fun isDht :: "action \<Rightarrow> bool" where
  "isDht (DhtMeasure b) = True"
| "isDht a = False"

text \<open>
  The timer handle and the pool agree: no handle and an empty pool, or one live timer
  whose handle is the stored one.
\<close>

definition oneTimer :: "sys \<Rightarrow> bool" where
  "oneTimer s =
     (if timerId s = -1 then timer s = [] else map fst (timer s) = [timerId s])"

text \<open>
  The states the device can be in: after \<^verbatim>\<open>setup\<close> from power-on, and after any number
  of passes of \<^verbatim>\<open>loop\<close>, with any time and link behaviour in between.
\<close>

inductive reachable :: "('f \<Rightarrow> string) \<Rightarrow> sys \<Rightarrow> bool"
  for fstr :: "'f \<Rightarrow> string" where
  start: "sketch_setup (powerOn t link) = Some s \<Longrightarrow> reachable fstr s"
| pass: "reachable fstr s \<Longrightarrow> loop fstr p (idle d link s) = Some s' \<Longrightarrow> reachable fstr s'"






text \<open>The three settings of the lamp that the blink routine writes.\<close>

definition lampRed :: "action list" where
  "lampRed = [AnalogWrite RED 255, AnalogWrite GREEN 0, AnalogWrite BLUE 0]"

definition lampAmber :: "action list" where
  "lampAmber = [AnalogWrite RED 255, AnalogWrite GREEN 100, AnalogWrite BLUE 0]"

definition lampOff :: "action list" where
  "lampOff = [AnalogWrite RED 0, AnalogWrite GREEN 0, AnalogWrite BLUE 0]"

text \<open>
  A simulated clock for the blink routine: the routine is called at each of the given
  clock values; the result lists the calls at which it wrote the lamp, with what it wrote.
\<close>

definition blinkAt :: "int \<Rightarrow> ms \<Rightarrow> sys \<Rightarrow> sys" where
  "blinkAt level t s = ledBlink level (s\<lparr>clock := t\<rparr>)"

fun lampLog :: "int \<Rightarrow> ms list \<Rightarrow> sys \<Rightarrow> (ms \<times> action list) list" where
  "lampLog level [] s = []"
| "lampLog level (t # ts) s =
     (let s' = blinkAt level t s
      in (if since s s' = [] then [] else [(t, since s s')]) @ lampLog level ts s')"

definition everyMs :: "nat \<Rightarrow> nat \<Rightarrow> ms list" where
  "everyMs period span = map (\<lambda>k. of_nat (period * k)) [0..<Suc (span div period)]"

section \<open>A sample run\<close>

text \<open>
  Power-on at clock 0 with a link that answers each of the three bring-up commands after
  10 ms, then passes of the loop 100 ms apart with the readings 3000, 1500 and 500; no
  timer is due and the temperature probe does not answer. Temperatures and humidities
  are whole numbers here, and the storage of the two locals holds 0.
\<close>

definition showFloat :: "int \<Rightarrow> string" where
  "showFloat v = String_int v"

definition reading :: "int \<Rightarrow> int pass" where
  "reading ppm =
     \<lparr> due = (\<lambda>i. False), co2_sensor = Some ppm, dht_sensor = None,
       temperature_storage = 0, humidity_storage = 0 \<rparr>"

definition afterSetup :: sys where
  "afterSetup = the (sketch_setup (powerOn 0 [Matched 10, Matched 10, Matched 10]))"

definition after3000 :: sys where
  "after3000 = the (loop showFloat (reading 3000) (idle 100 [] afterSetup))"

definition after1500 :: sys where
  "after1500 = the (loop showFloat (reading 1500) (idle 100 [] after3000))"

definition after500 :: sys where
  "after500 = the (loop showFloat (reading 500) (idle 100 [] after1500))"





text \<open>
  An upload on a link that never answers: 20 s after bring-up, at 3000 ppm, each of the
  three commands runs into its timeout.
\<close>

definition beforeUpload :: sys where
  "beforeUpload = idle 20000 [GaveUp 4000, GaveUp 2000, GaveUp 2000] afterSetup"

definition failedUpload :: sys where
  "failedUpload = the (thingSpeakUpdate showFloat 0 0 3000 beforeUpload)"

text \<open>
  Two passes at 3000 ppm whose rate-limit tests are 15 s apart, on a link that answers
  every command after 100 ms.
\<close>

definition firstTick :: sys where
  "firstTick = idle 20000 [Matched 100, Matched 100, Matched 100] afterSetup"

definition afterFirstTick :: sys where
  "afterFirstTick = the (loop showFloat (reading 3000) firstTick)"

definition secondTick :: sys where
  "secondTick = idle 13200 [Matched 100, Matched 100, Matched 100] afterFirstTick"

definition afterSecondTick :: sys where
  "afterSecondTick = the (loop showFloat (reading 3000) secondTick)"

text \<open>
  A pass at 3000 ppm, 20 s after the pass that left \<open>after3000\<close>, in which the
  storage of the two locals holds 7 and -3 and the temperature probe answers 21 degrees
  and 40 percent. Then, 15 s later, a pass at 3000 ppm in which the storage still holds
  what that measurement left there, 21 and 40, and the probe does not answer.
\<close>

definition probedTick :: sys where
  "probedTick = idle 20000 [Matched 100, Matched 100, Matched 100] after3000"

definition probed :: "int pass" where
  "probed =
     \<lparr> due = (\<lambda>i. False), co2_sensor = Some 3000, dht_sensor = Some (21, 40),
       temperature_storage = 7, humidity_storage = - 3 \<rparr>"

definition afterProbedTick :: sys where
  "afterProbedTick = the (loop showFloat probed probedTick)"

definition staleTick :: sys where
  "staleTick = idle 15000 [Matched 100, Matched 100, Matched 100] afterProbedTick"

definition stale :: "int pass" where
  "stale =
     \<lparr> due = (\<lambda>i. False), co2_sensor = Some 3000, dht_sensor = None,
       temperature_storage = 21, humidity_storage = 40 \<rparr>"

definition afterStaleTick :: sys where
  "afterStaleTick = the (loop showFloat stale staleTick)"

text \<open>
  A pass right after bring-up in which the sensor's field holds 35000, which does not fit
  the 16-bit \<^verbatim>\<open>int\<close>, 600 ms after power-on.
\<close>

definition overrangeTick :: sys where
  "overrangeTick = idle 600 [] afterSetup"

definition afterOverrange :: sys where
  "afterOverrange = the (loop showFloat (reading 35000) overrangeTick)"

section \<open>Auxiliary facts\<close>

lemma emit_fields [simp]:
  "timer (emit as s) = timer s" "timerId (emit as s) = timerId s"
  "lastCO2Threshold (emit as s) = lastCO2Threshold s" "found (emit as s) = found s"
  "clock (emit as s) = clock s" "inbound (emit as s) = inbound s"
  "countTrueCommand (emit as s) = countTrueCommand s"
  "lastSendTime (emit as s) = lastSendTime s" "co2Level (emit as s) = co2Level s"
  "buzzerDuration (emit as s) = buzzerDuration s" "ledOn (emit as s) = ledOn s"
  "ledStartTime (emit as s) = ledStartTime s"
  "trace (emit as s) = trace s @ as"
  by (simp_all add: emit_def)

lemma since_self [simp]: "since s s = []"
  by (simp add: since_def)

lemma since_emit [simp]: "since s (emit as s) = as"
  by (simp add: since_def)

lemma since_append: "trace s' = trace s @ as \<Longrightarrow> since s s' = as"
  by (simp add: since_def)

lemma buzzerManager_frame [simp]:
  "timer (buzzerManager s) = timer s" "timerId (buzzerManager s) = timerId s"
  "lastCO2Threshold (buzzerManager s) = lastCO2Threshold s"
  "clock (buzzerManager s) = clock s" "inbound (buzzerManager s) = inbound s"
  by (simp_all add: buzzerManager_def Let_def)

lemma buzzerManager_trace:
  "trace (buzzerManager s) = trace s @ [Tone 14 NOTE_C5 (buzzerDuration (buzzerManager s))]"
  by (simp add: buzzerManager_def Let_def)

lemma ledBlink_frame [simp]:
  "timer (ledBlink level s) = timer s" "timerId (ledBlink level s) = timerId s"
  "lastCO2Threshold (ledBlink level s) = lastCO2Threshold s"
  "clock (ledBlink level s) = clock s" "inbound (ledBlink level s) = inbound s"
  "lastSendTime (ledBlink level s) = lastSendTime s"
  by (simp_all add: ledBlink_def Let_def)

lemma setInterval_empty: "setInterval d [] = (0, [(0, d)])"
  by (simp add: setInterval_def MAX_TIMERS_def upt_conv_Cons)

lemma deleteTimer_single: "deleteTimer i [(i, d)] = []"
  by (simp add: deleteTimer_def)

lemma oneTimer_cases:
  "oneTimer s \<Longrightarrow>
     (timerId s = -1 \<and> timer s = []) \<or> (timerId s \<noteq> -1 \<and> (\<exists>d. timer s = [(timerId s, d)]))"
  by (cases "timer s") (auto simp: oneTimer_def split: if_splits)

lemma oneTimer_frame:
  "timer s' = timer s \<Longrightarrow> timerId s' = timerId s \<Longrightarrow> oneTimer s' = oneTimer s"
  by (simp add: oneTimer_def)

lemma buzzerSystem_same [simp]:
  "threshold = lastCO2Threshold s \<Longrightarrow> buzzerSystem threshold s = s"
  by (simp add: buzzerSystem_def)

lemma buzzerSystem_pool:
  assumes "oneTimer s" and "threshold \<noteq> lastCO2Threshold s"
  shows "timer (buzzerSystem threshold s) =
           (case alarmPeriod threshold of None \<Rightarrow> [] | Some d \<Rightarrow> [(0, d)])"
    and "timerId (buzzerSystem threshold s) =
           (case alarmPeriod threshold of None \<Rightarrow> -1 | Some d \<Rightarrow> 0)"
  using oneTimer_cases [OF assms(1)] assms(2)
  by (auto simp: buzzerSystem_def Let_def armTimer_def setInterval_empty deleteTimer_single
           split: option.splits)

lemma buzzerSystem_oneTimer: "oneTimer s \<Longrightarrow> oneTimer (buzzerSystem threshold s)"
proof (cases "threshold = lastCO2Threshold s")
  case True
  assume "oneTimer s"
  with True show ?thesis by simp
next
  case False
  assume "oneTimer s"
  with False show ?thesis
    by (simp add: oneTimer_def buzzerSystem_pool split: option.splits)
qed

lemma buzzerSystem_timerOps:
  assumes "oneTimer s" and "threshold \<noteq> lastCO2Threshold s"
  shows "filter isTimerOp (since s (buzzerSystem threshold s)) =
           (if timerId s \<noteq> -1 then [DeleteTimer (timerId s)] else []) @
           (case alarmPeriod threshold of Some d \<Rightarrow> [SetInterval d 0] | None \<Rightarrow> [])"
  using oneTimer_cases [OF assms(1)] assms(2)
  by (auto simp: buzzerSystem_def Let_def armTimer_def setInterval_empty deleteTimer_single
                 since_def buzzerManager_trace
           split: option.splits)

lemma timer_run_fold_frame:
  "timer (fold (\<lambda>e acc. if isDue (fst e) then buzzerManager acc else acc) xs s) = timer s \<and>
   timerId (fold (\<lambda>e acc. if isDue (fst e) then buzzerManager acc else acc) xs s) = timerId s"
  by (induction xs arbitrary: s) auto

lemma timer_run_frame [simp]:
  "timer (timer_run isDue s) = timer s" "timerId (timer_run isDue s) = timerId s"
  by (simp_all add: timer_run_def timer_run_fold_frame)

lemma esp_find_frame:
  "esp_find target s = Some (b, s') \<Longrightarrow>
     timer s' = timer s \<and> timerId s' = timerId s \<and> trace s' = trace s \<and>
     found s' = found s \<and> countTrueCommand s' = countTrueCommand s \<and>
     lastSendTime s' = lastSendTime s"
  by (auto simp: esp_find_def split: list.splits find_outcome.splits)

lemma whileWaiting_frame:
  "whileWaiting startTime maxTime readResponse s = Some s' \<Longrightarrow>
     timer s' = timer s \<and> timerId s' = timerId s \<and> trace s' = trace s \<and>
     countTrueCommand s' = countTrueCommand s \<and> lastSendTime s' = lastSendTime s"
proof (induction startTime maxTime readResponse s rule: whileWaiting.induct)
  case (1 startTime maxTime readResponse s)
  show ?case
  proof (cases "millis s - startTime < maxTime")
    case False
    with "1.prems" show ?thesis by (simp add: whileWaiting.simps)
  next
    case True
    note open_loop = this
    show ?thesis
    proof (cases "esp_find readResponse s")
      case None
      with open_loop "1.prems" show ?thesis by (simp add: whileWaiting.simps)
    next
      case (Some r)
      obtain b s1 where r: "r = (b, s1)" by (cases r)
      from Some r have f: "esp_find readResponse s = Some (b, s1)" by simp
      show ?thesis
      proof (cases b)
        case True
        with f open_loop "1.prems" have "s' = s1\<lparr>found := True\<rparr>"
          by (simp add: whileWaiting.simps)
        with esp_find_frame [OF f] show ?thesis by simp
      next
        case False
        with f open_loop "1.prems"
        have "whileWaiting startTime maxTime readResponse s1 = Some s'"
          by (simp add: whileWaiting.simps)
        with "1.IH" [OF open_loop f [unfolded False] refl] False esp_find_frame [OF f]
        show ?thesis by simp
      qed
    qed
  qed
qed

lemma sendCommand_frame:
  assumes "sendCommand command maxTime readResponse s = Some s'"
  shows "timer s' = timer s \<and> timerId s' = timerId s \<and> lastSendTime s' = lastSendTime s"
proof -
  let ?s1 = "emit [Serial (PrintInt (countTrueCommand s)), Serial (PrintStr ''. at command =>''),
                   Serial (PrintStr []), EspPrintln command] s"
  from assms obtain s2 where
    w: "whileWaiting (millis ?s1) (word_of_int maxTime) readResponse ?s1 = Some s2"
    by (auto simp: sendCommand_def Let_def split: option.splits)
  from assms w have "timer s' = timer s2 \<and> timerId s' = timerId s2 \<and> lastSendTime s' = lastSendTime s2"
    by (auto simp: sendCommand_def Let_def split: if_splits)
  with whileWaiting_frame [OF w] show ?thesis by simp
qed

lemma sequence_Some:
  "sequence f g s = Some s' \<Longrightarrow> \<exists>s1. f s = Some s1 \<and> g s1 = Some s'"
  by (auto simp: sequence_def split: option.splits)

lemma sequence_rel:
  assumes run: "sequence f g s = Some s'"
    and f: "\<And>a b. f a = Some b \<Longrightarrow> Q a b"
    and g: "\<And>a b. g a = Some b \<Longrightarrow> Q a b"
    and trans: "\<And>a b c. Q a b \<Longrightarrow> Q b c \<Longrightarrow> Q a c"
  shows "Q s s'"
proof -
  from sequence_Some [OF run] obtain s1 where "f s = Some s1" and "g s1 = Some s'" by blast
  then show ?thesis using f g trans by blast
qed

lemma connectToWiFi_frame:
  assumes "connectToWiFi s = Some s'"
  shows "timer s' = timer s \<and> timerId s' = timerId s \<and> lastSendTime s' = lastSendTime s"
  using assms unfolding connectToWiFi_def
  by (elim sequence_rel [where Q = "\<lambda>a b. timer b = timer a \<and> timerId b = timerId a \<and> lastSendTime b = lastSendTime a"])
     (simp_all add: sendCommand_frame)

lemma sendToThingSpeak_frame:
  assumes "sendToThingSpeak fstr temperature humidity ppm s = Some s'"
  shows "timer s' = timer s \<and> timerId s' = timerId s \<and> lastSendTime s' = lastSendTime s"
  using assms unfolding sendToThingSpeak_def Let_def
  by (elim sequence_rel [where Q = "\<lambda>a b. timer b = timer a \<and> timerId b = timerId a \<and> lastSendTime b = lastSendTime a"])
     (auto simp: sendCommand_frame delay_def)

lemma thingSpeakUpdate_frame:
  "thingSpeakUpdate fstr temperature humidity ppm s = Some s' \<Longrightarrow>
     timer s' = timer s \<and> timerId s' = timerId s"
  by (auto simp: thingSpeakUpdate_def split: if_splits option.splits dest!: sendToThingSpeak_frame)

lemma upperBands_frame [simp]:
  "timer (snd (upperBands ppm s)) = timer s" "timerId (snd (upperBands ppm s)) = timerId s"
  "clock (snd (upperBands ppm s)) = clock s" "lastSendTime (snd (upperBands ppm s)) = lastSendTime s"
  "inbound (snd (upperBands ppm s)) = inbound s"
  by (simp_all add: upperBands_def)

lemma alertLogic_frame:
  assumes "alertLogic fstr temperature humidity ppm s = Some (threshold, s')"
  shows "timer s' = timer s \<and> timerId s' = timerId s"
proof (cases "ppm < 2500")
  case True
  with assms show ?thesis by (auto simp: alertLogic_def split: if_splits)
next
  case False
  with assms have "thingSpeakUpdate fstr temperature humidity (toInt ppm) (snd (upperBands ppm s)) = Some s'"
    by (auto simp: alertLogic_def split: if_splits option.splits prod.splits)
  from thingSpeakUpdate_frame [OF this] show ?thesis by simp
qed

lemma alertLogic_threshold:
  "alertLogic fstr temperature humidity ppm s = Some (threshold, s') \<Longrightarrow>
     threshold = currentCO2Threshold ppm"
  by (auto simp: alertLogic_def currentCO2Threshold_def upperBands_def
           split: if_splits option.splits prod.splits)

lemma measureEnvironment_frame [simp]:
  "timer (snd (snd (snd (measureEnvironment probe temperature humidity s)))) = timer s"
  "timerId (snd (snd (snd (measureEnvironment probe temperature humidity s)))) = timerId s"
  by (simp_all add: measureEnvironment_def Let_def split: option.splits prod.splits)

lemma alertSystem_oneTimer:
  assumes "alertSystem fstr temperature humidity measured s = Some s'" and "oneTimer s"
  shows "oneTimer s'"
proof (cases measured)
  case None
  with assms show ?thesis by (simp add: alertSystem_def)
next
  case (Some ppm)
  with assms(1) obtain threshold s2 where
    a: "alertLogic fstr temperature humidity ppm (s\<lparr>co2Level := toInt ppm\<rparr>) = Some (threshold, s2)"
    and b: "s' = buzzerSystem threshold s2"
    by (auto simp: alertSystem_def split: option.splits)
  from alertLogic_frame [OF a] have "oneTimer s2 = oneTimer s"
    by (simp add: oneTimer_def)
  with b assms(2) show ?thesis by (simp add: buzzerSystem_oneTimer)
qed

lemma loop_Some:
  assumes "loop fstr p s = Some s'"
  shows "\<exists>s3. alertSystem fstr (temperature_storage p) (humidity_storage p) (co2_sensor p)
                     (timer_run (due p) s) = Some s3 \<and>
              s' = snd (snd (snd (measureEnvironment (dht_sensor p)
                                    (temperature_storage p) (humidity_storage p) s3)))"
proof (cases "alertSystem fstr (temperature_storage p) (humidity_storage p) (co2_sensor p)
                (timer_run (due p) s)")
  case None
  with assms show ?thesis by (simp add: loop_def)
next
  case (Some s3)
  with assms show ?thesis by (simp add: loop_def split: prod.splits)
qed

lemma loop_oneTimer:
  assumes "loop fstr p s = Some s'" and "oneTimer s"
  shows "oneTimer s'"
proof -
  from loop_Some [OF assms(1)] obtain s3 where
    mid: "alertSystem fstr (temperature_storage p) (humidity_storage p) (co2_sensor p)
            (timer_run (due p) s) = Some s3"
    and fin: "s' = snd (snd (snd (measureEnvironment (dht_sensor p)
                                    (temperature_storage p) (humidity_storage p) s3)))"
    by blast
  have "oneTimer (timer_run (due p) s)"
    using assms(2) by (simp add: oneTimer_def)
  from alertSystem_oneTimer [OF mid this] fin show ?thesis
    by (simp add: oneTimer_def)
qed

lemma idle_oneTimer [simp]: "oneTimer (idle d link s) = oneTimer s"
  by (simp add: idle_def oneTimer_def)

lemma powerOn_oneTimer: "oneTimer (emit as (powerOn t link))"
  by (simp add: oneTimer_def powerOn_def)

lemma reachable_oneTimer: "reachable fstr s \<Longrightarrow> oneTimer s"
proof (induction rule: reachable.induct)
  case (start t link s)
  let ?s0 = "emit [AnalogWrite RED 0, AnalogWrite GREEN 0, AnalogWrite BLUE 255] (powerOn t link)"
  from start have "connectToWiFi ?s0 = Some s"
    by (simp add: sketch_setup_def)
  from connectToWiFi_frame [OF this] have "oneTimer s = oneTimer ?s0"
    by (simp add: oneTimer_def)
  with powerOn_oneTimer show ?case by simp
next
  case (pass s p d link s')
  then show ?case by (auto dest: loop_oneTimer)
qed

lemma afterSetup_Some:
  "sketch_setup (powerOn 0 [Matched 10, Matched 10, Matched 10]) = Some afterSetup"
proof -
  have "sketch_setup (powerOn 0 [Matched 10, Matched 10, Matched 10]) \<noteq> None"
    by code_simp
  then show ?thesis by (simp add: afterSetup_def)
qed

lemma after3000_Some: "loop showFloat (reading 3000) (idle 100 [] afterSetup) = Some after3000"
proof -
  have "loop showFloat (reading 3000) (idle 100 [] afterSetup) \<noteq> None"
    unfolding afterSetup_def by code_simp
  then show ?thesis by (simp add: after3000_def)
qed

lemma after1500_Some: "loop showFloat (reading 1500) (idle 100 [] after3000) = Some after1500"
proof -
  have "loop showFloat (reading 1500) (idle 100 [] after3000) \<noteq> None"
    unfolding after3000_def afterSetup_def by code_simp
  then show ?thesis by (simp add: after1500_def)
qed

lemma after500_Some: "loop showFloat (reading 500) (idle 100 [] after1500) = Some after500"
proof -
  have "loop showFloat (reading 500) (idle 100 [] after1500) \<noteq> None"
    unfolding after1500_def after3000_def afterSetup_def by code_simp
  then show ?thesis by (simp add: after500_def)
qed

lemma afterSetup_reachable: "reachable showFloat afterSetup"
  by (rule reachable.start [OF afterSetup_Some])

lemma after3000_reachable: "reachable showFloat after3000"
  by (rule reachable.pass [OF afterSetup_reachable after3000_Some])

lemma after3000_alarm:
  "timerId after3000 = 0" "timer after3000 = [(0, 10000)]" "lastCO2Threshold after3000 = 2"
  by code_simp+

lemma blinkAt_flips: "(ledOn (blinkAt level t s) \<noteq> ledOn s) = (500 \<le> t - ledStartTime s)"
  by (simp add: blinkAt_def ledBlink_def millis_def Let_def)

lemma blinkAt_ledOn:
  "ledOn (blinkAt level t s) = (if 500 \<le> t - ledStartTime s then \<not> ledOn s else ledOn s)"
  by (simp add: blinkAt_def ledBlink_def millis_def Let_def)

lemma blinkAt_start:
  "ledStartTime (blinkAt level t s) = (if 500 \<le> t - ledStartTime s then t else ledStartTime s)"
  by (simp add: blinkAt_def ledBlink_def millis_def Let_def)

lemma blinkAt_lamp:
  "since s (blinkAt level t s) =
     (if 500 \<le> t - ledStartTime s
      then (if ledOn s then lampOff
            else if 30000 \<le> level \<or> level \<le> 0 then lampRed else lampAmber)
      else [])"
  by (simp add: blinkAt_def ledBlink_def millis_def Let_def since_def
                lampOff_def lampRed_def lampAmber_def)

lemma blinkAt_idle: "\<not> 500 \<le> t - ledStartTime s \<Longrightarrow> blinkAt level t s = s\<lparr>clock := t\<rparr>"
  by (simp add: blinkAt_def ledBlink_def millis_def)

lemma lamp_step:
  "lampLog level (t # ts) s =
     (if 500 \<le> t - ledStartTime s
      then (t, if ledOn s then lampOff
               else if 30000 \<le> level \<or> level \<le> 0 then lampRed else lampAmber)
           # lampLog level ts (blinkAt level t s)
      else lampLog level ts (s\<lparr>clock := t\<rparr>))"
proof (cases "500 \<le> t - ledStartTime s")
  case True
  then show ?thesis
    by (simp add: blinkAt_lamp Let_def lampOff_def lampRed_def lampAmber_def)
next
  case False
  then have quiet: "since s (blinkAt level t s) = []" by (simp add: blinkAt_lamp)
  from False have same: "blinkAt level t s = s\<lparr>clock := t\<rparr>" by (rule blinkAt_idle)
  from False quiet show ?thesis
    by (simp add: Let_def) (simp only: same)
qed

lemma elapsed_500:
  fixes t :: ms
  assumes "unat start \<le> unat t" and "500 \<le> t - start"
  shows "unat start + 500 \<le> unat t"
proof -
  from assms(1) have "start \<le> t" by (simp add: word_le_nat_alt)
  then have "unat (t - start) = unat t - unat start" by (rule unat_sub)
  moreover from assms(2) have "500 \<le> unat (t - start)" by (simp add: word_le_nat_alt)
  ultimately show ?thesis using assms(1) by linarith
qed

lemma lampLog_spaced:
  "sorted (map unat ts) \<Longrightarrow> \<forall>u \<in> set ts. unat (ledStartTime s) \<le> unat u \<Longrightarrow>
     successively (\<lambda>a b. unat a + 500 \<le> unat b) (map fst (lampLog level ts s)) \<and>
     (\<forall>u \<in> set (map fst (lampLog level ts s)). unat (ledStartTime s) + 500 \<le> unat u)"
proof (induction ts arbitrary: s)
  case Nil
  then show ?case by simp
next
  case (Cons t ts)
  from Cons.prems have later: "\<forall>u \<in> set ts. unat t \<le> unat u"
    and rest: "sorted (map unat ts)" and first: "unat (ledStartTime s) \<le> unat t"
    by simp_all
  show ?case
  proof (cases "500 \<le> t - ledStartTime s")
    case True
    let ?s' = "blinkAt level t s"
    let ?rest = "map fst (lampLog level ts ?s')"
    from True have start': "ledStartTime ?s' = t" by (simp add: blinkAt_start)
    from Cons.IH [OF rest, of ?s'] later start'
    have ih: "successively (\<lambda>a b. unat a + 500 \<le> unat b) ?rest"
      and far: "\<forall>u \<in> set ?rest. unat t + 500 \<le> unat u"
      by simp_all
    from elapsed_500 [OF first True] have t_far: "unat (ledStartTime s) + 500 \<le> unat t" .
    have "successively (\<lambda>a b. unat a + 500 \<le> unat b) (t # ?rest)"
      using ih far by (cases ?rest) simp_all
    moreover have "\<forall>u \<in> set (t # ?rest). unat (ledStartTime s) + 500 \<le> unat u"
      using t_far far by auto
    moreover from True have "map fst (lampLog level (t # ts) s) = t # ?rest"
      by (simp only: lamp_step if_True list.map fst_conv)
    ultimately show ?thesis by simp
  next
    case False
    let ?s' = "s\<lparr>clock := t\<rparr>"
    from Cons.prems have "\<forall>u \<in> set ts. unat (ledStartTime ?s') \<le> unat u" by simp
    from Cons.IH [OF rest this] False show ?thesis
      by (simp add: lamp_step del: lampLog.simps)
  qed
qed

lemma calls_every_10ms:
  "lampLog 1500 (everyMs 10 2000) (powerOn 0 []) =
     [(500, lampAmber), (1000, lampOff), (1500, lampAmber), (2000, lampOff)]"
  unfolding everyMs_def
  apply (simp add: upt_rec del: lampLog.simps)
  apply (simp add: lamp_step blinkAt_start blinkAt_ledOn powerOn_def del: lampLog.simps(2))
  done

lemma calls_every_200ms:
  "lampLog 1500 (everyMs 200 2000) (powerOn 0 []) =
     [(600, lampAmber), (1200, lampOff), (1800, lampAmber)]"
  unfolding everyMs_def
  apply (simp add: upt_rec del: lampLog.simps)
  apply (simp add: lamp_step blinkAt_start blinkAt_ledOn powerOn_def del: lampLog.simps(2))
  done

lemma calls_every_10ms_3s:
  "lampLog 1500 (everyMs 10 2990) (powerOn 0 []) =
     [(500, lampAmber), (1000, lampOff), (1500, lampAmber), (2000, lampOff), (2500, lampAmber)]"
  unfolding everyMs_def
  apply (simp add: upt_rec del: lampLog.simps)
  apply (simp add: lamp_step blinkAt_start blinkAt_ledOn powerOn_def del: lampLog.simps(2))
  done

lemma calls_every_200ms_3s:
  "lampLog 1500 (everyMs 200 2990) (powerOn 0 []) =
     [(600, lampAmber), (1200, lampOff), (1800, lampAmber), (2400, lampOff)]"
  unfolding everyMs_def
  apply (simp add: upt_rec del: lampLog.simps)
  apply (simp add: lamp_step blinkAt_start blinkAt_ledOn powerOn_def del: lampLog.simps(2))
  done






lemma sendCommand_Some:
  assumes "sendCommand command maxTime readResponse s = Some s'"
  shows "\<exists>s2.
    whileWaiting (clock s) (word_of_int maxTime) readResponse
       (emit [Serial (PrintInt (countTrueCommand s)), Serial (PrintStr ''. at command =>''),
              Serial (PrintStr []), EspPrintln command] s) = Some s2 \<and>
    s' = (if found s2
          then (emit [Serial (PrintLine (command @ '': OK''))] s2)
                  \<lparr>countTrueCommand := countTrueCommand s2 + 1, found := False\<rparr>
          else (emit [Serial (PrintStr (command @ '': FAIL''))] s2)\<lparr>found := False\<rparr>)"
proof -
  let ?s1 = "emit [Serial (PrintInt (countTrueCommand s)), Serial (PrintStr ''. at command =>''),
                   Serial (PrintStr []), EspPrintln command] s"
  show ?thesis
  proof (cases "whileWaiting (clock s) (word_of_int maxTime) readResponse ?s1")
    case None
    with assms show ?thesis by (simp add: sendCommand_def Let_def millis_def)
  next
    case (Some s2)
    with assms show ?thesis
      by (cases "found s2") (auto simp: sendCommand_def Let_def millis_def)
  qed
qed









lemma sendCommand_trace:
  assumes "sendCommand command maxTime readResponse s = Some s'"
  shows "\<exists>as. trace s' = trace s @ as \<and> filter isUpload as = [] \<and> filter isDht as = []"
proof -
  let ?s1 = "emit [Serial (PrintInt (countTrueCommand s)), Serial (PrintStr ''. at command =>''),
                   Serial (PrintStr []), EspPrintln command] s"
  from sendCommand_Some [OF assms] obtain s2 where
    w: "whileWaiting (clock s) (word_of_int maxTime) readResponse ?s1 = Some s2"
    and s'_eq: "s' = (if found s2
          then (emit [Serial (PrintLine (command @ '': OK''))] s2)
                  \<lparr>countTrueCommand := countTrueCommand s2 + 1, found := False\<rparr>
          else (emit [Serial (PrintStr (command @ '': FAIL''))] s2)\<lparr>found := False\<rparr>)"
    by blast
  from whileWaiting_frame [OF w] have "trace s2 = trace ?s1" by simp
  with s'_eq show ?thesis by (cases "found s2") simp_all
qed

lemma sendToThingSpeak_Some:
  assumes "sendToThingSpeak fstr temperature humidity ppm s = Some s'"
  shows "\<exists>c1 c2 s1 s2.
           sendCommand c1 4000 ''OK'' s = Some s1 \<and>
           sendCommand c2 2000 ''>'' s1 = Some s2 \<and>
           sendCommand ''AT+CIPCLOSE'' 2000 ''OK''
             (delay 1500 (emit [EspPrint (httpRequest fstr temperature humidity ppm)] s2)) = Some s'"
proof -
  let ?c1 = "''AT+CIPSTART='' @ dq @ ''TCP'' @ dq @ '','' @ dq @ HOST @ dq @ '','' @ PORT"
  let ?c2 = "''AT+CIPSEND='' @ decimal (int (length (httpRequest fstr temperature humidity ppm)) + 2)"
  let ?rest2 = "sequence (\<lambda>s. Some (delay 1500 (emit [EspPrint (httpRequest fstr temperature humidity ppm)] s)))
                  (sendCommand ''AT+CIPCLOSE'' 2000 ''OK'')"
  let ?rest1 = "sequence (sendCommand ?c2 2000 ''>'') ?rest2"
  from assms have "sequence (sendCommand ?c1 4000 ''OK'') ?rest1 s = Some s'"
    by (simp only: sendToThingSpeak_def Let_def)
  from sequence_Some [OF this] obtain s1 where
    a: "sendCommand ?c1 4000 ''OK'' s = Some s1" and r1: "?rest1 s1 = Some s'" by blast
  from sequence_Some [OF r1] obtain s2 where
    b: "sendCommand ?c2 2000 ''>'' s1 = Some s2" and r2: "?rest2 s2 = Some s'" by blast
  from sequence_Some [OF r2] have
    "sendCommand ''AT+CIPCLOSE'' 2000 ''OK''
       (delay 1500 (emit [EspPrint (httpRequest fstr temperature humidity ppm)] s2)) = Some s'"
    by auto
  with a b show ?thesis by blast
qed

lemma sendToThingSpeak_trace:
  assumes "sendToThingSpeak fstr temperature humidity ppm s = Some s'"
  shows "\<exists>as. trace s' = trace s @ as \<and>
              filter isUpload as = [EspPrint (httpRequest fstr temperature humidity ppm)] \<and>
              filter isDht as = []"
proof -
  let ?request = "httpRequest fstr temperature humidity ppm"
  from sendToThingSpeak_Some [OF assms] obtain c1 c2 s1 s2 where
    a: "sendCommand c1 4000 ''OK'' s = Some s1"
    and b: "sendCommand c2 2000 ''>'' s1 = Some s2"
    and c: "sendCommand ''AT+CIPCLOSE'' 2000 ''OK'' (delay 1500 (emit [EspPrint ?request] s2)) = Some s'"
    by blast
  from sendCommand_trace [OF a] obtain as1 where
    t1: "trace s1 = trace s @ as1" "filter isUpload as1 = []" "filter isDht as1 = []" by blast
  from sendCommand_trace [OF b] obtain as2 where
    t2: "trace s2 = trace s1 @ as2" "filter isUpload as2 = []" "filter isDht as2 = []" by blast
  from sendCommand_trace [OF c] obtain as3 where
    t3: "trace s' = trace (delay 1500 (emit [EspPrint ?request] s2)) @ as3"
        "filter isUpload as3 = []" "filter isDht as3 = []" by blast
  let ?as = "as1 @ as2 @ [EspPrint ?request, Delay 1500] @ as3"
  from t1 t2 t3 have "trace s' = trace s @ ?as \<and> filter isUpload ?as = [EspPrint ?request] \<and>
                      filter isDht ?as = []"
    by (simp add: delay_def)
  then show ?thesis by blast
qed

lemma thingSpeakUpdate_trace:
  assumes "thingSpeakUpdate fstr temperature humidity ppm s = Some s'"
  shows "\<exists>as. trace s' = trace s @ as \<and>
              filter isUpload as =
                (if sendInterval \<le> clock s - lastSendTime s
                 then [EspPrint (httpRequest fstr temperature humidity ppm)] else []) \<and>
              filter isDht as = [] \<and>
              lastSendTime s' =
                (if sendInterval \<le> clock s - lastSendTime s then clock s' else lastSendTime s)"
proof (cases "sendInterval \<le> clock s - lastSendTime s")
  case False
  with assms have "s' = s" by (simp add: thingSpeakUpdate_def millis_def)
  with False show ?thesis by simp
next
  case True
  with assms obtain s1 where
    up: "sendToThingSpeak fstr temperature humidity ppm s = Some s1"
    and s': "s' = s1\<lparr>lastSendTime := millis s1\<rparr>"
    by (auto simp: thingSpeakUpdate_def millis_def split: option.splits)
  from sendToThingSpeak_trace [OF up] s' True show ?thesis
    by (auto simp: millis_def)
qed

lemma ledBlink_trace:
  "\<exists>as. trace (ledBlink level s) = trace s @ as \<and> filter isUpload as = [] \<and> filter isDht as = []"
  by (simp add: ledBlink_def Let_def)

lemma upperBands_trace:
  "\<exists>as. trace (snd (upperBands ppm s)) = trace s @ as \<and> filter isUpload as = [] \<and>
        filter isDht as = []"
  using ledBlink_trace [of "toInt ppm" s] by (simp add: upperBands_def)

lemma alertLogic_trace:
  assumes "alertLogic fstr temperature humidity ppm s = Some (threshold, s')"
  shows "\<exists>as. trace s' = trace s @ as \<and>
              filter isUpload as =
                (if 2500 \<le> ppm \<and> sendInterval \<le> clock s - lastSendTime s
                 then [EspPrint (httpRequest fstr temperature humidity (toInt ppm))] else []) \<and>
              filter isDht as = [] \<and>
              lastSendTime s' =
                (if 2500 \<le> ppm \<and> sendInterval \<le> clock s - lastSendTime s
                 then clock s' else lastSendTime s)"
proof (cases "ppm < 2500")
  case True
  with assms have "s' = emit [NoTone 14, AnalogWrite RED 0, AnalogWrite GREEN 255, AnalogWrite BLUE 0] s \<or>
                   s' = ledBlink (toInt ppm) s"
    by (auto simp: alertLogic_def split: if_splits)
  with True ledBlink_trace [of "toInt ppm" s] show ?thesis by auto
next
  case False
  let ?s1 = "snd (upperBands ppm s)"
  from False assms have up: "thingSpeakUpdate fstr temperature humidity (toInt ppm) ?s1 = Some s'"
    by (auto simp: alertLogic_def split: if_splits option.splits prod.splits)
  from upperBands_trace [of ppm s] obtain as1 where
    t1: "trace ?s1 = trace s @ as1" "filter isUpload as1 = []" "filter isDht as1 = []" by blast
  from thingSpeakUpdate_trace [OF up] obtain as2 where
    t2: "trace s' = trace ?s1 @ as2"
        "filter isUpload as2 =
           (if sendInterval \<le> clock s - lastSendTime s
            then [EspPrint (httpRequest fstr temperature humidity (toInt ppm))] else [])"
        "filter isDht as2 = []"
        "lastSendTime s' = (if sendInterval \<le> clock s - lastSendTime s then clock s' else lastSendTime s)"
    by auto
  from t1 t2 False have
    "trace s' = trace s @ (as1 @ as2) \<and>
     filter isUpload (as1 @ as2) =
       (if 2500 \<le> ppm \<and> sendInterval \<le> clock s - lastSendTime s
        then [EspPrint (httpRequest fstr temperature humidity (toInt ppm))] else []) \<and>
     filter isDht (as1 @ as2) = [] \<and>
     lastSendTime s' =
       (if 2500 \<le> ppm \<and> sendInterval \<le> clock s - lastSendTime s
        then clock s' else lastSendTime s)"
    by simp
  then show ?thesis by blast
qed

lemma buzzerManager_quiet:
  "\<exists>as. trace (buzzerManager s) = trace s @ as \<and> filter isUpload as = [] \<and> filter isDht as = []"
  by (simp add: buzzerManager_trace)

lemma buzzerSystem_trace:
  "\<exists>as. trace (buzzerSystem threshold s) = trace s @ as \<and> filter isUpload as = [] \<and>
        filter isDht as = []"
  by (auto simp: buzzerSystem_def Let_def armTimer_def buzzerManager_trace
           split: option.splits prod.splits)

lemma buzzerSystem_clock [simp]:
  "clock (buzzerSystem threshold s) = clock s"
  "lastSendTime (buzzerSystem threshold s) = lastSendTime s"
  by (auto simp: buzzerSystem_def Let_def armTimer_def buzzerManager_def
           split: option.splits prod.splits)

lemma timer_run_fold_trace:
  "\<exists>as. trace (fold (\<lambda>e acc. if isDue (fst e) then buzzerManager acc else acc) xs s) = trace s @ as \<and>
        filter isUpload as = [] \<and> filter isDht as = [] \<and>
        clock (fold (\<lambda>e acc. if isDue (fst e) then buzzerManager acc else acc) xs s) = clock s \<and>
        lastSendTime (fold (\<lambda>e acc. if isDue (fst e) then buzzerManager acc else acc) xs s) = lastSendTime s"
proof (induction xs arbitrary: s)
  case Nil
  show ?case by simp
next
  case (Cons x xs)
  let ?f = "\<lambda>e acc. if isDue (fst e) then buzzerManager acc else acc"
  let ?s1 = "?f x s"
  have one: "\<exists>as. trace ?s1 = trace s @ as \<and> filter isUpload as = [] \<and> filter isDht as = []"
    by (simp add: buzzerManager_trace)
  have same: "clock ?s1 = clock s" "lastSendTime ?s1 = lastSendTime s"
    by (simp_all add: buzzerManager_def Let_def)
  from one obtain as1 where
    a: "trace ?s1 = trace s @ as1" "filter isUpload as1 = []" "filter isDht as1 = []" by blast
  from Cons.IH [of ?s1] obtain as2 where
    b: "trace (fold ?f xs ?s1) = trace ?s1 @ as2" "filter isUpload as2 = []" "filter isDht as2 = []"
       "clock (fold ?f xs ?s1) = clock ?s1" "lastSendTime (fold ?f xs ?s1) = lastSendTime ?s1"
    by blast
  from a b same have
    "trace (fold ?f (x # xs) s) = trace s @ (as1 @ as2) \<and> filter isUpload (as1 @ as2) = [] \<and>
     filter isDht (as1 @ as2) = [] \<and> clock (fold ?f (x # xs) s) = clock s \<and>
     lastSendTime (fold ?f (x # xs) s) = lastSendTime s"
    by simp
  then show ?case by blast
qed

lemma timer_run_trace:
  "\<exists>as. trace (timer_run isDue s) = trace s @ as \<and> filter isUpload as = [] \<and>
        filter isDht as = [] \<and> clock (timer_run isDue s) = clock s \<and>
        lastSendTime (timer_run isDue s) = lastSendTime s"
  unfolding timer_run_def by (rule timer_run_fold_trace)

lemma measureEnvironment_trace:
  "\<exists>bs. trace (snd (snd (snd (measureEnvironment probe temperature humidity s)))) = trace s @ bs \<and>
        (bs = [] \<or> (\<exists>b. bs = [DhtMeasure b])) \<and>
        lastSendTime (snd (snd (snd (measureEnvironment probe temperature humidity s)))) = lastSendTime s \<and>
        clock (snd (snd (snd (measureEnvironment probe temperature humidity s)))) = clock s"
  by (auto simp: measureEnvironment_def Let_def split: option.splits prod.splits)

lemma alertSystem_trace:
  assumes "alertSystem fstr temperature humidity measured s = Some s'"
  shows "\<exists>as. trace s' = trace s @ as \<and>
              filter isUpload as =
                (case measured of
                   None \<Rightarrow> []
                 | Some ppm \<Rightarrow>
                     if 2500 \<le> ppm \<and> sendInterval \<le> clock s - lastSendTime s
                     then [EspPrint (httpRequest fstr temperature humidity (toInt ppm))] else []) \<and>
              filter isDht as = [] \<and>
              lastSendTime s' =
                (case measured of
                   None \<Rightarrow> lastSendTime s
                 | Some ppm \<Rightarrow>
                     if 2500 \<le> ppm \<and> sendInterval \<le> clock s - lastSendTime s
                     then clock s' else lastSendTime s)"
proof (cases measured)
  case None
  with assms show ?thesis by (simp add: alertSystem_def)
next
  case (Some ppm)
  let ?s0 = "s\<lparr>co2Level := toInt ppm\<rparr>"
  from Some assms obtain threshold s2 where
    a: "alertLogic fstr temperature humidity ppm ?s0 = Some (threshold, s2)"
    and b: "s' = buzzerSystem threshold s2"
    by (auto simp: alertSystem_def split: option.splits)
  from alertLogic_trace [OF a] obtain as1 where
    t1: "trace s2 = trace s @ as1"
        "filter isUpload as1 =
           (if 2500 \<le> ppm \<and> sendInterval \<le> clock s - lastSendTime s
            then [EspPrint (httpRequest fstr temperature humidity (toInt ppm))] else [])"
        "filter isDht as1 = []"
        "lastSendTime s2 =
           (if 2500 \<le> ppm \<and> sendInterval \<le> clock s - lastSendTime s
            then clock s2 else lastSendTime s)"
    by auto
  from buzzerSystem_trace [of threshold s2] b obtain as2 where
    t2: "trace s' = trace s2 @ as2" "filter isUpload as2 = []" "filter isDht as2 = []" by blast
  from t1 t2 b Some have
    "trace s' = trace s @ (as1 @ as2) \<and>
     filter isUpload (as1 @ as2) =
       (case measured of
          None \<Rightarrow> []
        | Some ppm \<Rightarrow>
            if 2500 \<le> ppm \<and> sendInterval \<le> clock s - lastSendTime s
            then [EspPrint (httpRequest fstr temperature humidity (toInt ppm))] else []) \<and>
     filter isDht (as1 @ as2) = [] \<and>
     lastSendTime s' =
       (case measured of
          None \<Rightarrow> lastSendTime s
        | Some ppm \<Rightarrow>
            if 2500 \<le> ppm \<and> sendInterval \<le> clock s - lastSendTime s
            then clock s' else lastSendTime s)"
    by simp
  then show ?thesis by blast
qed

lemma loop_trace:
  assumes "loop fstr p s = Some s'"
  shows "\<exists>as bs. since s s' = as @ bs \<and>
              filter isUpload as =
                (case co2_sensor p of
                   None \<Rightarrow> []
                 | Some ppm \<Rightarrow>
                     if 2500 \<le> ppm \<and> sendInterval \<le> clock s - lastSendTime s
                     then [EspPrint (httpRequest fstr (temperature_storage p) (humidity_storage p) (toInt ppm))] else []) \<and>
              filter isDht as = [] \<and>
              (bs = [] \<or> (\<exists>b. bs = [DhtMeasure b])) \<and>
              lastSendTime s' =
                (case co2_sensor p of
                   None \<Rightarrow> lastSendTime s
                 | Some ppm \<Rightarrow>
                     if 2500 \<le> ppm \<and> sendInterval \<le> clock s - lastSendTime s
                     then clock s' else lastSendTime s)"
proof -
  let ?s1 = "timer_run (due p) s"
  from loop_Some [OF assms] obtain s3 where
    mid: "alertSystem fstr (temperature_storage p) (humidity_storage p) (co2_sensor p) ?s1 = Some s3"
    and fin: "s' = snd (snd (snd (measureEnvironment (dht_sensor p)
                                    (temperature_storage p) (humidity_storage p) s3)))"
    by blast
  from timer_run_trace [of "due p" s] obtain as0 where
    t0: "trace ?s1 = trace s @ as0" "filter isUpload as0 = []" "filter isDht as0 = []"
        "clock ?s1 = clock s" "lastSendTime ?s1 = lastSendTime s"
    by blast
  from alertSystem_trace [OF mid, unfolded t0(4) t0(5)] obtain as1 where
    t1: "trace s3 = trace ?s1 @ as1"
        "filter isUpload as1 =
           (case co2_sensor p of
              None \<Rightarrow> []
            | Some ppm \<Rightarrow>
                if 2500 \<le> ppm \<and> sendInterval \<le> clock s - lastSendTime s
                then [EspPrint (httpRequest fstr (temperature_storage p) (humidity_storage p) (toInt ppm))] else [])"
        "filter isDht as1 = []"
        "lastSendTime s3 =
           (case co2_sensor p of
              None \<Rightarrow> lastSendTime s
            | Some ppm \<Rightarrow>
                if 2500 \<le> ppm \<and> sendInterval \<le> clock s - lastSendTime s
                then clock s3 else lastSendTime s)"
    by blast
  from measureEnvironment_trace [of "dht_sensor p" "temperature_storage p" "humidity_storage p" s3] fin
  obtain bs where
    t2: "trace s' = trace s3 @ bs" "bs = [] \<or> (\<exists>b. bs = [DhtMeasure b])"
        "lastSendTime s' = lastSendTime s3" "clock s' = clock s3"
    by blast
  from t0 t1 t2 have "since s s' = (as0 @ as1) @ bs"
    by (simp add: since_def)
  moreover from t0 t1 have
    "filter isUpload (as0 @ as1) =
       (case co2_sensor p of
          None \<Rightarrow> []
        | Some ppm \<Rightarrow>
            if 2500 \<le> ppm \<and> sendInterval \<le> clock s - lastSendTime s
            then [EspPrint (httpRequest fstr (temperature_storage p) (humidity_storage p) (toInt ppm))] else [])"
    "filter isDht (as0 @ as1) = []"
    by simp_all
  moreover from t1(4) t2(3,4) have
    "lastSendTime s' =
       (case co2_sensor p of
          None \<Rightarrow> lastSendTime s
        | Some ppm \<Rightarrow>
            if 2500 \<le> ppm \<and> sendInterval \<le> clock s - lastSendTime s
            then clock s' else lastSendTime s)"
    by (simp split: option.splits)
  ultimately show ?thesis using t2(2) by blast
qed

lemma loop_uploads:
  assumes "loop fstr p s = Some s'"
  shows "filter isUpload (since s s') =
           (case co2_sensor p of
              None \<Rightarrow> []
            | Some ppm \<Rightarrow>
                if 2500 \<le> ppm \<and> sendInterval \<le> clock s - lastSendTime s
                then [EspPrint (httpRequest fstr (temperature_storage p) (humidity_storage p) (toInt ppm))]
                else [])"
proof -
  from loop_trace [OF assms] obtain as bs where
    parts: "since s s' = as @ bs"
    and up: "filter isUpload as =
               (case co2_sensor p of
                  None \<Rightarrow> []
                | Some ppm \<Rightarrow>
                    if 2500 \<le> ppm \<and> sendInterval \<le> clock s - lastSendTime s
                    then [EspPrint (httpRequest fstr (temperature_storage p) (humidity_storage p) (toInt ppm))]
                    else [])"
    and tail: "bs = [] \<or> (\<exists>b. bs = [DhtMeasure b])"
    by blast
  from tail have "filter isUpload bs = []" by auto
  with parts up show ?thesis by simp
qed

lemma found_frames [simp]:
  "found (buzzerManager s) = found s" "found (ledBlink level s) = found s"
  "found (snd (upperBands ppm s)) = found s" "found (buzzerSystem threshold s) = found s"
  "found (snd (snd (snd (measureEnvironment probe temperature humidity s)))) = found s"
  "found (delay d s) = found s" "found (idle d link s) = found s"
  by (auto simp: buzzerManager_def ledBlink_def upperBands_def buzzerSystem_def armTimer_def
                 measureEnvironment_def delay_def idle_def Let_def
           split: option.splits prod.splits)

lemma timer_run_found [simp]: "found (timer_run isDue s) = found s"
proof -
  have "found (fold (\<lambda>e acc. if isDue (fst e) then buzzerManager acc else acc) xs s) = found s"
    for xs
    by (induction xs arbitrary: s) auto
  then show ?thesis by (simp add: timer_run_def)
qed








lemma failedUpload_Some:
  "thingSpeakUpdate showFloat 0 0 3000 beforeUpload = Some failedUpload"
proof -
  have "thingSpeakUpdate showFloat 0 0 3000 beforeUpload \<noteq> None"
    unfolding beforeUpload_def afterSetup_def by code_simp
  then show ?thesis by (simp add: failedUpload_def)
qed

lemma failedUpload_facts:
  "clock beforeUpload = 20030" "lastSendTime beforeUpload = 0"
  "countTrueCommand beforeUpload = 3"
  "countTrueCommand failedUpload = 3"
  "lastSendTime failedUpload = 29530" "clock failedUpload = 29530"
  by code_simp+

lemma afterFirstTick_Some: "loop showFloat (reading 3000) firstTick = Some afterFirstTick"
proof -
  have "loop showFloat (reading 3000) firstTick \<noteq> None"
    unfolding firstTick_def afterSetup_def by code_simp
  then show ?thesis by (simp add: afterFirstTick_def)
qed

lemma afterSecondTick_Some: "loop showFloat (reading 3000) secondTick = Some afterSecondTick"
proof -
  have "loop showFloat (reading 3000) secondTick \<noteq> None"
    unfolding secondTick_def afterFirstTick_def firstTick_def afterSetup_def by code_simp
  then show ?thesis by (simp add: afterSecondTick_def)
qed

lemma tick_facts:
  "clock firstTick = 20030" "lastSendTime firstTick = 0"
  "clock afterFirstTick = 21830" "lastSendTime afterFirstTick = 21830"
  "clock secondTick = 35030" "lastSendTime secondTick = 21830"
  "length (filter isUpload (since firstTick afterFirstTick)) = 1"
  "length (filter isUpload (since secondTick afterSecondTick)) = 0"
  "co2_sensor (reading 3000) = Some 3000"
  by code_simp+

lemma afterProbedTick_Some: "loop showFloat probed probedTick = Some afterProbedTick"
proof -
  have "loop showFloat probed probedTick \<noteq> None"
    unfolding probedTick_def after3000_def afterSetup_def by code_simp
  then show ?thesis by (simp add: afterProbedTick_def)
qed

lemma afterProbedTick_facts:
  "filter isUpload (since probedTick afterProbedTick) =
     [EspPrint (''GET /update?api_key=API_KEY&field1=7&field2=-3&field3=3000'' @ CRLF)]"
  "last (since probedTick afterProbedTick) = DhtMeasure True"
  "dht_sensor probed = Some (21, 40)"
  "temperature_storage probed = 7" "humidity_storage probed = - 3"
  "co2_sensor probed = Some 3000"
  by code_simp+

lemma afterStaleTick_Some: "loop showFloat stale staleTick = Some afterStaleTick"
proof -
  have "loop showFloat stale staleTick \<noteq> None"
    unfolding staleTick_def afterProbedTick_def probedTick_def after3000_def afterSetup_def
    by code_simp
  then show ?thesis by (simp add: afterStaleTick_def)
qed

lemma afterStaleTick_facts:
  "filter isUpload (since staleTick afterStaleTick) =
     [EspPrint (''GET /update?api_key=API_KEY&field1=21&field2=40&field3=3000'' @ CRLF)]"
  "temperature_storage stale = 21" "humidity_storage stale = 40"
  "clock staleTick - clock afterProbedTick = 15000"
  by code_simp+

lemma overrange_facts:
  "clock overrangeTick = 630" "lastSendTime overrangeTick = 0"
  "toInt 35000 = - 30536"
  "co2Level afterOverrange = - 30536" "lastCO2Threshold afterOverrange = 5"
  "since overrangeTick afterOverrange =
     [AnalogWrite RED 255, AnalogWrite GREEN 0, AnalogWrite BLUE 0,
      Tone 14 NOTE_C5 0, SetInterval 1000 0]"
  by code_simp+

section \<open>Threshold classification (C1)\<close>

text \<open>
  C1, as the code has it. Every value of the sensor's field gets exactly one of the six
  thresholds, and the threshold that a pass of the loop works with is this value. For a
  field value of 0 or more the ranges are left-closed and right-open: below 1000 Normal
  (0 itself included), from 1000 Elevated, from 2500 High, from 5000 Severe, from 10000
  Critical, from 30000 Extreme. The range tests read the field itself, before any
  conversion to \<^verbatim>\<open>int\<close>.
\<close>

theorem threshold_classification:
  "(\<exists>level. severity (currentCO2Threshold ppm) = Some level) \<and>
   (0 \<le> ppm \<longrightarrow>
      severity (currentCO2Threshold ppm) =
        Some (if ppm < 1000 then Normal
              else if ppm < 2500 then Elevated
              else if ppm < 5000 then High
              else if ppm < 10000 then Severe
              else if ppm < 30000 then Critical
              else Extreme)) \<and>
   (alertLogic fstr temperature humidity ppm s = Some (threshold, s') \<longrightarrow>
      threshold = currentCO2Threshold ppm)"
proof -
  have "alertLogic fstr temperature humidity ppm s = Some (threshold, s') \<longrightarrow>
          threshold = currentCO2Threshold ppm"
    by (blast dest: alertLogic_threshold)
  moreover have "severity (currentCO2Threshold ppm) =
     Some (if ppm < 1000 then Normal
           else if ppm < 2500 then Elevated
           else if ppm < 5000 then High
           else if ppm < 10000 then Severe
           else if ppm < 30000 then Critical
           else Extreme)"
    by (simp add: currentCO2Threshold_def severity_def)
  ultimately show ?thesis by blast
qed

text \<open>
  At a field value of 35000 the threshold is Extreme, although the level that the sketch
  keeps in its \<^verbatim>\<open>int\<close> variables is then negative.
\<close>

theorem threshold_classification_witness:
  "(0 :: int) \<le> 35000 \<and>
   alertLogic showFloat 0 0 35000 overrangeTick =
     Some (5, ledBlink (toInt 35000) overrangeTick) \<and>
   severity (currentCO2Threshold 35000) = Some Extreme \<and>
   currentCO2Threshold 35000 = 5 \<and> toInt 35000 = - 30536"
proof -
  have run: "alertLogic showFloat 0 0 35000 overrangeTick =
               Some (5, ledBlink (toInt 35000) overrangeTick)"
    by (simp add: alertLogic_def upperBands_def thingSpeakUpdate_def millis_def
                  sendInterval_def overrange_facts)
  from threshold_classification
         [of 35000 showFloat 0 0 overrangeTick 5 "ledBlink (toInt 35000) overrangeTick"] run
  show ?thesis by (simp add: severity_def overrange_facts)
qed

text \<open>
  C1 as stated fails: a reading of 0 is classified Normal by the first range test, not
  Extreme.
\<close>

theorem nonpositive_reading_counterexample:
  "(0 :: int) \<le> 0 \<and>
   severity (currentCO2Threshold 0) = Some Normal \<and>
   severity (currentCO2Threshold 0) \<noteq> Some Extreme"
  by (simp add: currentCO2Threshold_def severity_def)

section \<open>Period of the re-alarm timer (C2)\<close>

text \<open>
  C2, as the code has it. On a severity transition, with the timer handle and pool in
  agreement, the pool afterwards holds no timer for Normal and Elevated, one 10 s timer
  for High, one 5 s timer for Severe and one 1 s timer for Critical and for Extreme.
\<close>

theorem alarm_period_by_level:
  assumes "oneTimer s" and "threshold \<noteq> lastCO2Threshold s"
  shows "map snd (timer (buzzerSystem threshold s)) =
           (case severity threshold of
              Some High \<Rightarrow> [10000]
            | Some Severe \<Rightarrow> [5000]
            | Some Critical \<Rightarrow> [1000]
            | Some Extreme \<Rightarrow> [1000]
            | _ \<Rightarrow> [])"
  using assms
  by (simp add: buzzerSystem_pool alarmPeriod_def severity_def)

theorem alarm_period_by_level_witness:
  "oneTimer after3000 \<and> 3 \<noteq> lastCO2Threshold after3000 \<and>
   severity 3 = Some Severe \<and> map snd (timer (buzzerSystem 3 after3000)) = [5000]"
proof -
  have one: "oneTimer after3000"
    by (simp add: oneTimer_def after3000_alarm)
  have change: "3 \<noteq> lastCO2Threshold after3000"
    by (simp add: after3000_alarm)
  from alarm_period_by_level [OF one change] one change show ?thesis
    by (simp add: severity_def)
qed

text \<open>
  C2 as stated fails: a transition to High arms a 10 s timer (the claim: none), one to
  Severe a 5 s timer (the claim: 10 s), one to Critical a 1 s timer (the claim: 5 s).
\<close>

theorem alarm_period_counterexample:
  "severity 2 = Some High \<and> timer (buzzerSystem 2 afterSetup) = [(0, 10000)] \<and>
   severity 3 = Some Severe \<and> timer (buzzerSystem 3 afterSetup) = [(0, 5000)] \<and>
   severity 4 = Some Critical \<and> timer (buzzerSystem 4 afterSetup) = [(0, 1000)]"
  by code_simp

section \<open>Tone duration below 1000 ppm (C4)\<close>

text \<open>
  C4. Every pulse is one tone request; its duration is 2000, 1000 or 500 ms for a level in
  the three bands from 1000 ppm upwards, and otherwise the duration the previous pulse
  left behind. At the readings 1500 and then 500 the pass with 500 ppm silences the
  buzzer in the Normal branch and then, on the transition, requests a tone of 2000 ms,
  where the claim asks for no tone.
\<close>

theorem stale_tone_below_1000:
  "since s (buzzerManager s) =
     [Tone 14 NOTE_C5
        (if 1000 \<le> co2Level s \<and> co2Level s < 5000 then 2000
         else if 5000 \<le> co2Level s \<and> co2Level s < 10000 then 1000
         else if 10000 \<le> co2Level s then 500
         else buzzerDuration s)] \<and>
   co2Level after500 = 500 \<and>
   since after1500 after500 =
     [NoTone 14, AnalogWrite RED 0, AnalogWrite GREEN 255, AnalogWrite BLUE 0,
      Tone 14 NOTE_C5 2000]"
proof -
  have "since s (buzzerManager s) =
     [Tone 14 NOTE_C5
        (if 1000 \<le> co2Level s \<and> co2Level s < 5000 then 2000
         else if 5000 \<le> co2Level s \<and> co2Level s < 10000 then 1000
         else if 10000 \<le> co2Level s then 500
         else buzzerDuration s)]"
    by (simp add: buzzerManager_def Let_def since_def)
  moreover have "co2Level after500 = 500"
    by code_simp
  moreover have "since after1500 after500 =
     [NoTone 14, AnalogWrite RED 0, AnalogWrite GREEN 255, AnalogWrite BLUE 0,
      Tone 14 NOTE_C5 2000]"
    by code_simp
  ultimately show ?thesis by blast
qed

section \<open>One live alarm timer (C5)\<close>

text \<open>
  C5. In every reachable state the pool holds at most one timer, the one the stored handle
  names. A transition from such a state cancels that timer if there is one, then arms at
  most one new timer, in this order, and again leaves at most one timer in the pool.
\<close>

theorem at_most_one_alarm_timer:
  assumes "reachable fstr s"
  shows "length (timer s) \<le> 1 \<and> oneTimer s \<and>
         (threshold \<noteq> lastCO2Threshold s \<longrightarrow>
            filter isTimerOp (since s (buzzerSystem threshold s)) =
              (if timerId s \<noteq> -1 then [DeleteTimer (timerId s)] else []) @
              (case alarmPeriod threshold of Some d \<Rightarrow> [SetInterval d 0] | None \<Rightarrow> []) \<and>
            length (timer (buzzerSystem threshold s)) \<le> 1)"
proof -
  from assms have one: "oneTimer s" by (rule reachable_oneTimer)
  from oneTimer_cases [OF one] have len: "length (timer s) \<le> 1" by auto
  have "length (timer (buzzerSystem threshold s)) \<le> 1"
    using oneTimer_cases [OF buzzerSystem_oneTimer [OF one, of threshold]] by auto
  with one len show ?thesis by (simp add: buzzerSystem_timerOps)
qed

theorem at_most_one_alarm_timer_witness:
  "reachable showFloat after3000 \<and> 4 \<noteq> lastCO2Threshold after3000 \<and>
   timer after3000 = [(0, 10000)] \<and>
   filter isTimerOp (since after3000 (buzzerSystem 4 after3000)) =
     [DeleteTimer 0, SetInterval 1000 0] \<and>
   length (timer (buzzerSystem 4 after3000)) \<le> 1"
  using at_most_one_alarm_timer [OF after3000_reachable, of 4] after3000_reachable
  by (simp add: after3000_alarm alarmPeriod_def)

section \<open>Idempotence of the transition (C9)\<close>

text \<open>
  C9. When the new threshold equals the stored one the transition block changes nothing:
  no cancel, no tone, no arming. Hence feeding a level a second time has no effect beyond
  the first.
\<close>

theorem same_level_no_timer_action:
  "(threshold = lastCO2Threshold s \<longrightarrow> buzzerSystem threshold s = s) \<and>
   buzzerSystem threshold (buzzerSystem threshold s) = buzzerSystem threshold s"
proof -
  have "lastCO2Threshold (buzzerSystem threshold s) = threshold"
    by (simp add: buzzerSystem_def Let_def)
  then show ?thesis by simp
qed

theorem same_level_no_timer_action_witness:
  "2 = lastCO2Threshold after3000 \<and> buzzerSystem 2 after3000 = after3000 \<and>
   since after3000 (buzzerSystem 2 after3000) = []"
  using same_level_no_timer_action [of 2 after3000]
  by (simp add: after3000_alarm)

section \<open>Blink timing (C8)\<close>

text \<open>
  C8, as the code has it. A call of the blink routine writes the lamp exactly when at
  least 500 ms (as an unsigned 32-bit difference) lie between the clock and the call at
  which it last wrote it: it then switches the lamp off if it was lit and otherwise sets
  the alert colour (red for a level of 30000 and above or of 0 and below, amber
  otherwise), and restarts the measurement at the current clock. On a clock that does not
  wrap during the run, two writes are therefore never less than 500 ms apart. Nothing
  makes them exactly 500 ms apart: that depends on when the routine is called.
\<close>

theorem blink_toggle_rule:
  "since s (blinkAt level t s) =
     (if 500 \<le> t - ledStartTime s
      then (if ledOn s then lampOff
            else if 30000 \<le> level \<or> level \<le> 0 then lampRed else lampAmber)
      else []) \<and>
   (ledOn (blinkAt level t s) \<noteq> ledOn s) = (500 \<le> t - ledStartTime s) \<and>
   ledStartTime (blinkAt level t s) = (if 500 \<le> t - ledStartTime s then t else ledStartTime s) \<and>
   (sorted (map unat ts) \<and> (\<forall>u \<in> set ts. unat (ledStartTime s) \<le> unat u) \<longrightarrow>
      successively (\<lambda>a b. unat a + 500 \<le> unat b) (map fst (lampLog level ts s)))"
  using lampLog_spaced [of ts s level]
  by (simp only: blinkAt_flips blinkAt_start blinkAt_lamp) blast

theorem blink_toggle_rule_witness:
  "sorted (map unat (everyMs 200 2000)) \<and>
   list_all (\<lambda>u. unat (ledStartTime (powerOn 0 [])) \<le> unat u) (everyMs 200 2000) \<and>
   successively (\<lambda>a b. unat a + 500 \<le> unat b)
     (map fst (lampLog 1500 (everyMs 200 2000) (powerOn 0 []))) \<and>
   since (powerOn 0 []) (blinkAt 1500 600 (powerOn 0 [])) = lampAmber \<and>
   lampAmber = [AnalogWrite RED 255, AnalogWrite GREEN 100, AnalogWrite BLUE 0] \<and>
   ledOn (blinkAt 1500 600 (powerOn 0 [])) \<noteq> ledOn (powerOn 0 []) \<and>
   ledStartTime (blinkAt 1500 600 (powerOn 0 [])) = 600"
proof -
  have sched: "everyMs 200 2000 = [0, 200, 400, 600, 800, 1000, 1200, 1400, 1600, 1800, 2000]"
    by (simp add: everyMs_def upt_rec)
  have a: "sorted (map unat (everyMs 200 2000))"
    by (simp add: sched)
  have b: "\<forall>u \<in> set (everyMs 200 2000). unat (ledStartTime (powerOn 0 [])) \<le> unat u"
    by (simp add: powerOn_def)
  have c: "ledStartTime (powerOn 0 []) = 0" "ledOn (powerOn 0 []) = False"
    by (simp_all add: powerOn_def)
  from blink_toggle_rule [of "powerOn 0 []" 1500 600 "everyMs 200 2000"] a b c
  show ?thesis by (simp add: list_all_iff lampAmber_def)
qed

text \<open>
  C8 as stated fails. With calls at every multiple of the period from 0 to 2000 ms, calls
  every 10 ms switch the lamp four times (amber, off, amber, off), 500 ms apart; calls
  every 200 ms switch it three times, 600 ms apart. With calls from 0 up to 2990 ms the
  lamp is switched five times and four times.
\<close>

theorem blink_call_frequency_counterexample:
  "lampLog 1500 (everyMs 10 2000) (powerOn 0 []) =
     [(500, lampAmber), (1000, lampOff), (1500, lampAmber), (2000, lampOff)] \<and>
   lampLog 1500 (everyMs 200 2000) (powerOn 0 []) =
     [(600, lampAmber), (1200, lampOff), (1800, lampAmber)] \<and>
   length (lampLog 1500 (everyMs 10 2000) (powerOn 0 [])) \<noteq>
   length (lampLog 1500 (everyMs 200 2000) (powerOn 0 [])) \<and>
   lampLog 1500 (everyMs 10 2990) (powerOn 0 []) =
     [(500, lampAmber), (1000, lampOff), (1500, lampAmber), (2000, lampOff), (2500, lampAmber)] \<and>
   lampLog 1500 (everyMs 200 2990) (powerOn 0 []) =
     [(600, lampAmber), (1200, lampOff), (1800, lampAmber), (2400, lampOff)] \<and>
   lampAmber = [AnalogWrite RED 255, AnalogWrite GREEN 100, AnalogWrite BLUE 0] \<and>
   lampOff = [AnalogWrite RED 0, AnalogWrite GREEN 0, AnalogWrite BLUE 0]"
  by (simp only: calls_every_10ms calls_every_200ms calls_every_10ms_3s calls_every_200ms_3s)
     (simp add: lampAmber_def lampOff_def)

section \<open>Command engine (C7)\<close>




section \<open>Upload timestamp (C3)\<close>

text \<open>
  C3, as the code has it. When the rate-limit test lets an upload start, the timestamp
  is set to the clock after the upload has returned, whatever its commands reported; from
  then on no upload starts until 15 s have passed on the clock.
\<close>

theorem timestamp_after_every_upload:
  assumes "thingSpeakUpdate fstr temperature humidity ppm s = Some s'"
    and "sendInterval \<le> clock s - lastSendTime s"
  shows "lastSendTime s' = clock s' \<and>
         filter isUpload (since s s') = [EspPrint (httpRequest fstr temperature humidity ppm)] \<and>
         (\<forall>d. d < sendInterval \<longrightarrow>
            thingSpeakUpdate fstr temperature humidity ppm (s'\<lparr>clock := clock s' + d\<rparr>) =
              Some (s'\<lparr>clock := clock s' + d\<rparr>))"
proof -
  from thingSpeakUpdate_trace [OF assms(1)] assms(2) obtain as where
    "trace s' = trace s @ as"
    "filter isUpload as = [EspPrint (httpRequest fstr temperature humidity ppm)]"
    and stamp: "lastSendTime s' = clock s'"
    by auto
  then have "filter isUpload (since s s') = [EspPrint (httpRequest fstr temperature humidity ppm)]"
    by (simp add: since_def)
  moreover have "\<forall>d. d < sendInterval \<longrightarrow>
            thingSpeakUpdate fstr temperature humidity ppm (s'\<lparr>clock := clock s' + d\<rparr>) =
              Some (s'\<lparr>clock := clock s' + d\<rparr>)"
    using stamp by (simp add: thingSpeakUpdate_def millis_def not_le [symmetric])
  ultimately show ?thesis using stamp by blast
qed

theorem timestamp_after_every_upload_witness:
  "thingSpeakUpdate showFloat 0 0 3000 beforeUpload = Some failedUpload \<and>
   sendInterval \<le> clock beforeUpload - lastSendTime beforeUpload \<and>
   countTrueCommand failedUpload = countTrueCommand beforeUpload \<and>
   lastSendTime failedUpload = clock failedUpload \<and>
   thingSpeakUpdate showFloat 0 0 3000 (failedUpload\<lparr>clock := clock failedUpload + 14999\<rparr>) =
     Some (failedUpload\<lparr>clock := clock failedUpload + 14999\<rparr>)"
proof -
  have gate: "sendInterval \<le> clock beforeUpload - lastSendTime beforeUpload"
    by (simp add: failedUpload_facts sendInterval_def)
  have soon: "(14999 :: ms) < sendInterval"
    by (simp add: sendInterval_def)
  from timestamp_after_every_upload [OF failedUpload_Some gate]
  have stamp: "lastSendTime failedUpload = clock failedUpload"
    and later: "\<forall>d. d < sendInterval \<longrightarrow>
            thingSpeakUpdate showFloat 0 0 3000 (failedUpload\<lparr>clock := clock failedUpload + d\<rparr>) =
              Some (failedUpload\<lparr>clock := clock failedUpload + d\<rparr>)"
    by blast+
  from later soon have
    "thingSpeakUpdate showFloat 0 0 3000 (failedUpload\<lparr>clock := clock failedUpload + 14999\<rparr>) =
       Some (failedUpload\<lparr>clock := clock failedUpload + 14999\<rparr>)"
    by blast
  with stamp failedUpload_Some gate show ?thesis
    by (simp only: failedUpload_facts simp_thms)
qed

text \<open>
  C3 as stated fails. On a link that never answers, all three commands of the upload run
  into their timeouts and none is counted as a success, yet the timestamp moves from 0 to
  the clock at the end of the upload.
\<close>

theorem failed_upload_counterexample:
  "thingSpeakUpdate showFloat 0 0 3000 beforeUpload = Some failedUpload \<and>
   countTrueCommand failedUpload = countTrueCommand beforeUpload \<and>
   lastSendTime beforeUpload = 0 \<and> lastSendTime failedUpload = 29530"
  by (simp add: failedUpload_Some failedUpload_facts)

section \<open>Upload rate limit (C6)\<close>

text \<open>
  C6, as the code has it. A pass attempts an upload exactly when the sensor gave a reading
  at threshold High or above and at least 15 s (as an unsigned 32-bit difference) lie
  between the clock and the stored timestamp; a pass makes at most one attempt. The
  timestamp is 0 at power-on and is set to the clock at the end of each attempt, so the
  15 s count from the return of the previous attempt, whether or not it succeeded.
\<close>

theorem upload_rate_limit:
  assumes "loop fstr p s = Some s'"
  shows "length (filter isUpload (since s s')) =
           (case co2_sensor p of
              None \<Rightarrow> 0
            | Some ppm \<Rightarrow>
                if 2 \<le> currentCO2Threshold ppm \<and> sendInterval \<le> clock s - lastSendTime s
                then 1 else 0) \<and>
         lastSendTime s' =
           (case co2_sensor p of
              None \<Rightarrow> lastSendTime s
            | Some ppm \<Rightarrow>
                if 2 \<le> currentCO2Threshold ppm \<and> sendInterval \<le> clock s - lastSendTime s
                then clock s' else lastSendTime s)"
proof -
  have high: "\<And>ppm. (2 \<le> currentCO2Threshold ppm) = (2500 \<le> ppm)"
    by (simp add: currentCO2Threshold_def)
  from loop_trace [OF assms] obtain as bs where
    stamp: "lastSendTime s' =
               (case co2_sensor p of
                  None \<Rightarrow> lastSendTime s
                | Some ppm \<Rightarrow>
                    if 2500 \<le> ppm \<and> sendInterval \<le> clock s - lastSendTime s
                    then clock s' else lastSendTime s)"
    by blast
  from loop_uploads [OF assms] have "length (filter isUpload (since s s')) =
           (case co2_sensor p of
              None \<Rightarrow> 0
            | Some ppm \<Rightarrow>
                if 2500 \<le> ppm \<and> sendInterval \<le> clock s - lastSendTime s then 1 else 0)"
    by (simp split: option.splits)
  with stamp show ?thesis by (simp add: high split: option.splits)
qed

theorem upload_rate_limit_witness:
  "loop showFloat (reading 3000) firstTick = Some afterFirstTick \<and>
   length (filter isUpload (since firstTick afterFirstTick)) = 1 \<and>
   lastSendTime afterFirstTick = clock afterFirstTick"
  using upload_rate_limit [OF afterFirstTick_Some] afterFirstTick_Some
  by (simp add: tick_facts)

text \<open>
  C6 as stated fails. Two passes at 3000 ppm reach the rate-limit test at clock 20030 and
  at clock 35030, 15 s apart. The first uploads and returns at clock 21830, which becomes
  the timestamp; at the second only 13.2 s have passed since then, and it makes no attempt.
\<close>

theorem upload_rate_limit_counterexample:
  "loop showFloat (reading 3000) firstTick = Some afterFirstTick \<and>
   loop showFloat (reading 3000) secondTick = Some afterSecondTick \<and>
   clock secondTick - clock firstTick = 15000 \<and>
   length (filter isUpload (since firstTick afterFirstTick)) = 1 \<and>
   length (filter isUpload (since secondTick afterSecondTick)) = 0"
  by (simp add: afterFirstTick_Some afterSecondTick_Some tick_facts)

section \<open>Measurements passed to the upload (C10)\<close>

text \<open>
  C10, as the code has it. In a pass that uploads, the temperature and the humidity of
  the request are what the storage of the two locals holds when the pass begins: the
  locals have not been assigned in this pass, because the temperature probe is read, if at
  all, as the last action of the pass, after the upload. So the request does not depend
  on what the probe answers in this pass. What the storage holds is indeterminate; nothing
  keeps it from being what an earlier measurement left there.
\<close>

theorem upload_sends_unassigned_measurements:
  assumes "loop fstr p s = Some s'"
  shows "(\<forall>r. EspPrint r \<in> set (since s s') \<longrightarrow>
            (\<exists>ppm. co2_sensor p = Some ppm \<and>
               r = httpRequest fstr (temperature_storage p) (humidity_storage p) (toInt ppm))) \<and>
         filter isDht (butlast (since s s')) = [] \<and>
         (\<forall>answer s''. loop fstr (p\<lparr>dht_sensor := answer\<rparr>) s = Some s'' \<longrightarrow>
            filter isUpload (since s s'') = filter isUpload (since s s'))"
proof -
  from loop_trace [OF assms] obtain as bs where
    parts: "since s s' = as @ bs"
    and up: "filter isUpload as =
               (case co2_sensor p of
                  None \<Rightarrow> []
                | Some ppm \<Rightarrow>
                    if 2500 \<le> ppm \<and> sendInterval \<le> clock s - lastSendTime s
                    then [EspPrint (httpRequest fstr (temperature_storage p) (humidity_storage p) (toInt ppm))]
                    else [])"
    and nodht: "filter isDht as = []"
    and tail: "bs = [] \<or> (\<exists>b. bs = [DhtMeasure b])"
    by blast
  have "\<exists>ppm. co2_sensor p = Some ppm \<and>
          r = httpRequest fstr (temperature_storage p) (humidity_storage p) (toInt ppm)"
    if r: "EspPrint r \<in> set (since s s')" for r
  proof -
    from r parts tail have "EspPrint r \<in> set as" by auto
    then have "EspPrint r \<in> set (filter isUpload as)" by simp
    with up show ?thesis by (auto split: option.splits if_splits)
  qed
  moreover have "filter isDht (butlast (since s s')) = []"
  proof (cases "bs = []")
    case True
    have "set (butlast as) \<subseteq> set as" by (auto dest: in_set_butlastD)
    with nodht have "filter isDht (butlast as) = []"
      by (auto simp: filter_empty_conv)
    with True parts show ?thesis by simp
  next
    case False
    with tail obtain b where "bs = [DhtMeasure b]" by blast
    with parts nodht show ?thesis by (simp add: butlast_append)
  qed
  moreover have "filter isUpload (since s s'') = filter isUpload (since s s')"
    if other: "loop fstr (p\<lparr>dht_sensor := answer\<rparr>) s = Some s''" for answer s''
    using loop_uploads [OF other] loop_uploads [OF assms] by (simp split: option.splits)
  ultimately show ?thesis by blast
qed

theorem upload_sends_unassigned_measurements_witness:
  "loop showFloat probed probedTick = Some afterProbedTick \<and>
   dht_sensor probed = Some (21, 40) \<and>
   temperature_storage probed = 7 \<and> humidity_storage probed = - 3 \<and>
   filter isUpload (since probedTick afterProbedTick) =
     [EspPrint (httpRequest showFloat 7 (- 3) (toInt 3000))] \<and>
   httpRequest showFloat 7 (- 3) (toInt 3000) =
     ''GET /update?api_key=API_KEY&field1=7&field2=-3&field3=3000'' @ CRLF \<and>
   last (since probedTick afterProbedTick) = DhtMeasure True \<and>
   filter isDht (butlast (since probedTick afterProbedTick)) = []"
proof -
  have req: "httpRequest showFloat 7 (- 3) (toInt 3000) =
               ''GET /update?api_key=API_KEY&field1=7&field2=-3&field3=3000'' @ CRLF"
    by code_simp
  from upload_sends_unassigned_measurements [OF afterProbedTick_Some] afterProbedTick_Some req
  show ?thesis by (simp add: afterProbedTick_facts)
qed

text \<open>
  C10 as stated fails where it says that the uploaded values never equal the most recently
  measured ones. The probe last answered 21 and 40, at the end of one pass; when the
  storage of the two locals still holds these values in the next uploading pass, 15 s
  later, the request carries exactly 21 and 40.
\<close>

theorem stale_measurement_counterexample:
  "loop showFloat probed probedTick = Some afterProbedTick \<and>
   dht_sensor probed = Some (21, 40) \<and>
   last (since probedTick afterProbedTick) = DhtMeasure True \<and>
   loop showFloat stale staleTick = Some afterStaleTick \<and>
   clock staleTick - clock afterProbedTick = 15000 \<and>
   temperature_storage stale = 21 \<and> humidity_storage stale = 40 \<and>
   filter isUpload (since staleTick afterStaleTick) =
     [EspPrint (''GET /update?api_key=API_KEY&field1=21&field2=40&field3=3000'' @ CRLF)]"
  by (simp add: afterProbedTick_Some afterStaleTick_Some afterProbedTick_facts
                afterStaleTick_facts)

end
